theory Spec2Isabelle
  imports Main
begin

section \<open>JavaScript strings and the insertion-ordered Map\<close>

text \<open>
  A JavaScript string is a sequence of code units; it is modelled as a \<open>string\<close>, one
  \<open>char\<close> per code unit (code units above 255 are outside this alphabet).
  \<open>String.prototype.includes\<close> (here \<open>String_includes\<close>) is a substring test,
  \<open>trim\<close> strips white space and line terminators from both ends. A number spliced into
  a template literal is printed in decimal (as JavaScript does for integers below
  \<open>10^21\<close>).
\<close>

fun startsWith :: "'a list \<Rightarrow> 'a list \<Rightarrow> bool" where
  "startsWith s [] = True"
| "startsWith [] (p # ps) = False"
| "startsWith (c # s) (p # ps) = (c = p \<and> startsWith s ps)"

fun String_includes :: "'a list \<Rightarrow> 'a list \<Rightarrow> bool" where
  "String_includes [] pattern = (pattern = [])"
| "String_includes (c # s) pattern = (startsWith (c # s) pattern \<or> String_includes s pattern)"

definition isWhiteSpace :: "char \<Rightarrow> bool" where
  "isWhiteSpace c = ((of_char c :: nat) \<in> {9, 10, 11, 12, 13, 32, 160})"

definition trim :: "string \<Rightarrow> string" where
  "trim s = rev (dropWhile isWhiteSpace (rev (dropWhile isWhiteSpace s)))"

text \<open>
  \<open>String.prototype.toLowerCase\<close> and \<open>String.prototype.toUpperCase\<close> are the case
  mappings of the JavaScript runtime, which is no code of this repository. They are not
  fixed here: the operation that calls them takes them as an argument, and what is proved
  of it holds for every pair of case mappings. (A string whose mapped form has a code unit
  above 255 is outside the alphabet, as any such string is.)
\<close>

record String_prototype =
  toLowerCase :: "string \<Rightarrow> string"
  toUpperCase :: "string \<Rightarrow> string"

fun digits :: "nat \<Rightarrow> string" where
  "digits n = (if n < 10 then [char_of (48 + n)] else digits (n div 10) @ [char_of (48 + n mod 10)])"

definition Number_toString :: "int \<Rightarrow> string" where
  "Number_toString n = (if n < 0 then ''-'' @ digits (nat (- n)) else digits (nat n))"

text \<open>
  A JavaScript \<open>Map\<close> keeps its keys in insertion order: \<open>set\<close> on a key that is present
  replaces the value where the key stands, \<open>set\<close> on a new key appends, \<open>delete\<close> removes
  the key. It is modelled as an association list.
\<close>

type_synonym ('k, 'v) js_map = "('k \<times> 'v) list"

fun Map_set :: "'k \<Rightarrow> 'v \<Rightarrow> ('k, 'v) js_map \<Rightarrow> ('k, 'v) js_map" where
  "Map_set k v [] = [(k, v)]"
| "Map_set k v ((k', v') # m) = (if k' = k then (k, v) # m else (k', v') # Map_set k v m)"

definition Map_get :: "'k \<Rightarrow> ('k, 'v) js_map \<Rightarrow> 'v option" where
  "Map_get k m = map_of m k"

definition Map_delete :: "'k \<Rightarrow> ('k, 'v) js_map \<Rightarrow> ('k, 'v) js_map" where
  "Map_delete k m = filter (\<lambda>kv. fst kv \<noteq> k) m"

definition Map_keys :: "('k, 'v) js_map \<Rightarrow> 'k list" where
  "Map_keys m = map fst m"

definition Map_values :: "('k, 'v) js_map \<Rightarrow> 'v list" where
  "Map_values m = map snd m"

text \<open>
  \<open>Array.prototype.slice(0, n)\<close>: a negative end counts from the end of the array.
\<close>

definition slice0 :: "'a list \<Rightarrow> int \<Rightarrow> 'a list" where
  "slice0 xs n = (if n < 0 then take (length xs - nat (- n)) xs else take (nat n) xs)"

section \<open>The cache with time to live (firestore.service.ts)\<close>

text \<open>
  \<open>const cache = new Map<string, { data: any; timestamp: number; ttl: number }>()\<close>.
  The global cache is passed in and returned; every reading of \<open>Date.now()\<close> is an
  argument. Times and durations are integers (milliseconds). The \<open>null\<close> that
  \<open>cacheUtils.get\<close> returns for an absent or expired entry is \<open>None\<close>.
\<close>

record 'v cache_entry =
  data :: 'v
  timestamp :: int
  ttl :: int

type_synonym 'v cache = "(string, 'v cache_entry) js_map"

definition cacheUtils_set :: "int \<Rightarrow> string \<Rightarrow> 'v \<Rightarrow> int \<Rightarrow> 'v cache \<Rightarrow> 'v cache" where
  "cacheUtils_set now key d t c = Map_set key \<lparr>data = d, timestamp = now, ttl = t\<rparr> c"

definition cacheUtils_get :: "int \<Rightarrow> string \<Rightarrow> 'v cache \<Rightarrow> 'v option \<times> 'v cache" where
  "cacheUtils_get now key c =
     (case Map_get key c of
        None \<Rightarrow> (None, c)
      | Some cached \<Rightarrow>
          if now - timestamp cached > ttl cached then (None, Map_delete key c)
          else (Some (data cached), c))"

definition cacheUtils_invalidate :: "string \<Rightarrow> 'v cache \<Rightarrow> 'v cache" where
  "cacheUtils_invalidate pattern c =
     foldl (\<lambda>c' key. if String_includes key pattern then Map_delete key c' else c') c (Map_keys c)"

text \<open>
  The remote document store is outside the program: what one of its calls does is an
  argument of the operation that makes the call.
\<close>

datatype outcome = Resolves | Rejects

text \<open>
  \<open>incrementDownloadCount\<close> and \<open>incrementViewCount\<close>: the \<open>await updateDoc(...)\<close> and the
  invalidation stand in one \<open>try\<close> block; the \<open>catch\<close> logs and returns \<open>false\<close>.
\<close>

definition incrementDownloadCount :: "outcome \<Rightarrow> string \<Rightarrow> 'v cache \<Rightarrow> bool \<times> 'v cache" where
  "incrementDownloadCount updateDoc wallpaperId c =
     (case updateDoc of
        Resolves \<Rightarrow> (True, cacheUtils_invalidate (''wallpaper_'' @ wallpaperId) c)
      | Rejects \<Rightarrow> (False, c))"

definition incrementViewCount :: "outcome \<Rightarrow> string \<Rightarrow> 'v cache \<Rightarrow> bool \<times> 'v cache" where
  "incrementViewCount updateDoc wallpaperId c =
     (case updateDoc of
        Resolves \<Rightarrow> (True, cacheUtils_invalidate (''wallpaper_'' @ wallpaperId) c)
      | Rejects \<Rightarrow> (False, c))"

section \<open>The favorites store (favorites.service.ts)\<close>

text \<open>
  The module state is the mirror \<open>favoritesCache\<close> (\<open>null\<close> is \<open>None\<close>) with its
  \<open>cacheTimestamp\<close>; the blob that AsyncStorage holds under \<open>FAVORITES_KEY\<close> is the third
  component, \<open>None\<close> when the key is absent. The blob is only ever written by this module as
  \<open>JSON.stringify\<close> of a list of strings, and \<open>JSON.parse\<close> gives that list back, so the
  blob is kept as the list it encodes. Each call of AsyncStorage either resolves or rejects;
  which of the two is an argument, and a rejected call leaves the blob as it was. Every
  reading of \<open>Date.now()\<close> is an argument too. An operation returns its result, \<open>Inl\<close> for a
  thrown \<open>Error\<close>, together with the state it leaves behind. The haptic feedback that
  \<open>toggleFavorite\<close> triggers is not awaited and is left out.
\<close>

datatype fav_error = Error string

record fav_state =
  storage :: "string list option"
  favoritesCache :: "string list option"
  cacheTimestamp :: int

record toggle_result =
  isFavorite :: bool
  message :: string

definition CACHE_DURATION :: int where
  "CACHE_DURATION = 5 * 60 * 1000"

definition parse_stored :: "string list option \<Rightarrow> string list" where
  \<comment> \<open>\<open>stored ? JSON.parse(stored) : []\<close>\<close>
  "parse_stored stored = (case stored of None \<Rightarrow> [] | Some favorites \<Rightarrow> favorites)"

definition getFavorites :: "int \<Rightarrow> outcome \<Rightarrow> fav_state \<Rightarrow> (fav_error + string list) \<times> fav_state" where
  "getFavorites now getItem st =
     (let reload =
        (case getItem of
           Rejects \<Rightarrow> (Inr [], st)
         | Resolves \<Rightarrow>
             (let favorites = parse_stored (storage st)
              in (Inr favorites, st\<lparr>favoritesCache := Some favorites, cacheTimestamp := now\<rparr>)))
      in case favoritesCache st of
           None \<Rightarrow> reload
         | Some cached \<Rightarrow>
             if now - cacheTimestamp st < CACHE_DURATION then (Inr cached, st) else reload)"

definition toggleFavorite ::
  "int \<Rightarrow> outcome \<Rightarrow> outcome \<Rightarrow> int \<Rightarrow> string \<Rightarrow> fav_state \<Rightarrow> (fav_error + toggle_result) \<times> fav_state" where
  "toggleFavorite now getItem setItem now' wallpaperId st =
     (case getFavorites now getItem st of
        (Inl e, st1) \<Rightarrow> (Inl (Error (''Erreur lors de la mise '' @ [CHR 0xE0] @ '' jour des favoris'')), st1)
      | (Inr favorites, st1) \<Rightarrow>
          (let currentlyFavorite = (wallpaperId \<in> set favorites);
               newFavorites =
                 (if currentlyFavorite then filter (\<lambda>i. i \<noteq> wallpaperId) favorites
                  else favorites @ [wallpaperId]);
               msg =
                 (if currentlyFavorite then ''Retir'' @ [CHR 0xE9] @ '' des favoris''
                  else ''Ajout'' @ [CHR 0xE9] @ '' aux favoris'')
           in case setItem of
                Rejects \<Rightarrow>
                  (Inl (Error (''Erreur lors de la mise '' @ [CHR 0xE0] @ '' jour des favoris'')), st1)
              | Resolves \<Rightarrow>
                  (Inr \<lparr>isFavorite = \<not> currentlyFavorite, message = msg\<rparr>,
                   st1\<lparr>storage := Some newFavorites, favoritesCache := Some newFavorites,
                       cacheTimestamp := now'\<rparr>)))"

definition addFavorite ::
  "int \<Rightarrow> outcome \<Rightarrow> outcome \<Rightarrow> int \<Rightarrow> string \<Rightarrow> fav_state \<Rightarrow> (fav_error + bool) \<times> fav_state" where
  "addFavorite now getItem setItem now' wallpaperId st =
     (case toggleFavorite now getItem setItem now' wallpaperId st of
        (Inl e, st1) \<Rightarrow> (Inl e, st1)
      | (Inr result, st1) \<Rightarrow> (Inr (isFavorite result), st1))"

definition removeFavorite ::
  "int \<Rightarrow> outcome \<Rightarrow> int \<Rightarrow> outcome \<Rightarrow> outcome \<Rightarrow> int \<Rightarrow> string \<Rightarrow> fav_state
     \<Rightarrow> (fav_error + bool) \<times> fav_state" where
  "removeFavorite now0 getItem0 now getItem setItem now' wallpaperId st =
     (case getFavorites now0 getItem0 st of
        (Inl e, st1) \<Rightarrow> (Inl e, st1)
      | (Inr favorites, st1) \<Rightarrow>
          if wallpaperId \<notin> set favorites then (Inr True, st1)
          else
            (case toggleFavorite now getItem setItem now' wallpaperId st1 of
               (Inl e, st2) \<Rightarrow> (Inl e, st2)
             | (Inr result, st2) \<Rightarrow> (Inr (\<not> isFavorite result), st2)))"

definition clearFavorites :: "outcome \<Rightarrow> int \<Rightarrow> fav_state \<Rightarrow> (fav_error + unit) \<times> fav_state" where
  "clearFavorites removeItem now st =
     (case removeItem of
        Rejects \<Rightarrow> (Inl (Error ''Erreur lors de la suppression des favoris''), st)
      | Resolves \<Rightarrow>
          (Inr (), st\<lparr>storage := None, favoritesCache := Some [], cacheTimestamp := now\<rparr>))"

definition importFavorites ::
  "outcome \<Rightarrow> int \<Rightarrow> string list \<Rightarrow> fav_state \<Rightarrow> (fav_error + unit) \<times> fav_state" where
  "importFavorites setItem now favoriteIds st =
     (let validIds = filter (\<lambda>i. length i > 0) favoriteIds
      in case setItem of
           Rejects \<Rightarrow> (Inl (Error (''Erreur lors de l'' @ [CHR 0x27] @ ''importation des favoris'')), st)
         | Resolves \<Rightarrow>
             (Inr (), st\<lparr>storage := Some validIds, favoritesCache := Some validIds,
                         cacheTimestamp := now\<rparr>))"

definition invalidateCache :: "fav_state \<Rightarrow> fav_state" where
  "invalidateCache st = st\<lparr>favoritesCache := None, cacheTimestamp := 0\<rparr>"

section \<open>The remote queries (firestore.service.ts)\<close>

text \<open>
  A document snapshot has an identifier and field data. An object is a finite map from
  property names to values; \<open>{ id: doc.id, ...doc.data() }\<close> sets \<open>id\<close> first and then
  copies the fields of the document over it. What the cache holds is a list of objects, one
  object, or a number; of these only the number zero is falsy.
\<close>

datatype 'v js_value = Str string | Val 'v

type_synonym 'v object = "string \<rightharpoonup> 'v js_value"

record 'v snapshot =
  doc_id :: string
  doc_data :: "'v object"

definition with_id :: "'v snapshot \<Rightarrow> 'v object" where
  "with_id d = [''id'' \<mapsto> Str (doc_id d)] ++ doc_data d"

datatype 'v payload = Objects "'v object list" | Object "'v object" | Number int

fun truthy :: "'v payload \<Rightarrow> bool" where
  "truthy (Objects xs) = True"
| "truthy (Object x) = True"
| "truthy (Number n) = (n \<noteq> 0)"

text \<open>
  The queries that the two operations build on the collection \<open>OWP_wallpapers\<close>:
  \<^item> \<open>ByCategory c n start\<close>: \<open>categoryId == c\<close>, ordered by \<open>createdAt\<close> descending,
    \<open>limit(n)\<close>, and \<open>startAfter(start)\<close> when a cursor is given;
  \<^item> \<open>ByTitle t n\<close>: \<open>title >= t\<close>, \<open>title <= t\<close> followed by the code unit U+F8FF, \<open>limit(n)\<close>;
  \<^item> \<open>ByTags ts n\<close>: \<open>tags array-contains-any ts\<close>, \<open>limit(n)\<close>.

  The document store is outside the program. It is an argument: \<open>builds q\<close> says whether
  the client library accepts the query \<open>q\<close> (it throws otherwise), and \<open>getDocs q\<close> is how
  the promise of its documents settles. The limit is always passed; a caller that leaves it
  out gets the default of the signature (200 for the category listing, 20 for the search).
\<close>

datatype 'v fs_query =
    ByCategory string int "'v snapshot option"
  | ByTitle string int
  | ByTags "string list" int

datatype 'a settled = Fulfilled 'a | Rejected

record 'v firestore =
  builds :: "'v fs_query \<Rightarrow> bool"
  getDocs :: "'v fs_query \<Rightarrow> 'v snapshot list settled"

record 'v PaginationState =
  lastDoc :: "'v snapshot option"
  hasMore :: bool

definition getWallpapersByCategory ::
  "'v firestore \<Rightarrow> string \<Rightarrow> int \<Rightarrow> 'v PaginationState option
     \<Rightarrow> 'v object list \<times> 'v PaginationState" where
  "getWallpapersByCategory fs categoryId limitCount paginationState =
     (let q = ByCategory categoryId limitCount
                (case paginationState of None \<Rightarrow> None | Some p \<Rightarrow> lastDoc p)
      in if \<not> builds fs q then ([], \<lparr>lastDoc = None, hasMore = False\<rparr>)
         else
           (case getDocs fs q of
              Rejected \<Rightarrow> ([], \<lparr>lastDoc = None, hasMore = False\<rparr>)
            | Fulfilled docs \<Rightarrow>
                (map with_id docs,
                 \<lparr>lastDoc = (if docs = [] then None else Some (last docs)),
                  hasMore = (int (length docs) = limitCount)\<rparr>)))"

text \<open>
  The documents that a settled query contributes: none when it was rejected.
\<close>

definition docs_of :: "'a list settled \<Rightarrow> 'a list" where
  "docs_of snapshot = (case snapshot of Fulfilled docs \<Rightarrow> docs | Rejected \<Rightarrow> [])"

text \<open>
  \<open>searchWallpapers\<close>. Besides its result and the cache it leaves, the model returns the
  cache accesses and remote queries it made, in order.
\<close>

datatype 'v event = CacheGet string | CacheSet string | GetDocs "'v fs_query"

definition add_fulfilled ::
  "'v snapshot list settled \<Rightarrow> (string, 'v object) js_map \<Rightarrow> (string, 'v object) js_map" where
  \<comment> \<open>\<open>if (snapshot.status === 'fulfilled') snapshot.value.docs.forEach(doc => results.set(...))\<close>\<close>
  "add_fulfilled snapshot results =
     (case snapshot of
        Fulfilled docs \<Rightarrow> foldl (\<lambda>m d. Map_set (doc_id d) (with_id d) m) results docs
      | Rejected \<Rightarrow> results)"

definition searchWallpapers ::
  "String_prototype \<Rightarrow> 'v firestore \<Rightarrow> int \<Rightarrow> int \<Rightarrow> string \<Rightarrow> int \<Rightarrow> 'v payload cache
     \<Rightarrow> 'v payload \<times> 'v payload cache \<times> 'v event list" where
  "searchWallpapers js fs now now' searchTerm limitCount c =
     (if trim searchTerm = [] then (Objects [], c, [])
      else
        (let cacheKey = ''search_'' @ toLowerCase js searchTerm @ ''_'' @ Number_toString limitCount;
             (cached, c1) = cacheUtils_get now cacheKey c;
             normalizedTerm = toUpperCase js (trim searchTerm);
             titleQuery = ByTitle normalizedTerm limitCount;
             tagQuery = ByTags [toLowerCase js normalizedTerm] limitCount;
             miss =
               (if \<not> builds fs titleQuery \<or> \<not> builds fs tagQuery
                then (Objects [], c1, [CacheGet cacheKey])
                else
                  (let titleSnapshot = getDocs fs titleQuery;
                       tagSnapshot = getDocs fs tagQuery;
                       results = add_fulfilled tagSnapshot (add_fulfilled titleSnapshot []);
                       data = slice0 (Map_values results) limitCount
                   in (Objects data,
                       cacheUtils_set now' cacheKey (Objects data) (2 * 60 * 1000) c1,
                       [CacheGet cacheKey, GetDocs titleQuery, GetDocs tagQuery, CacheSet cacheKey])))
         in case cached of
              None \<Rightarrow> miss
            | Some hit \<Rightarrow> if truthy hit then (hit, c1, [CacheGet cacheKey]) else miss))"

text \<open>
  Modelled from the spec: the remote document store itself, which is no code of this
  repository. \<open>paging_store ds\<close> holds the documents \<open>ds\<close> of one category, newest first,
  and answers a \<open>ByCategory\<close> query by cursor-based pagination: the first \<open>limit\<close>
  documents, or the first \<open>limit\<close> documents after the cursor.
\<close>

definition after_cursor :: "'a list \<Rightarrow> 'a option \<Rightarrow> 'a list" where
  "after_cursor ds start =
     (case start of None \<Rightarrow> ds | Some d \<Rightarrow> tl (dropWhile (\<lambda>x. x \<noteq> d) ds))"

definition paging_store :: "'v snapshot list \<Rightarrow> 'v firestore" where
  "paging_store ds =
     \<lparr>builds = (\<lambda>q. True),
      getDocs = (\<lambda>q. case q of
                   ByCategory c n start \<Rightarrow> Fulfilled (take (nat n) (after_cursor ds start))
                 | ByTitle t n \<Rightarrow> Fulfilled []
                 | ByTags ts n \<Rightarrow> Fulfilled [])\<rparr>"

section \<open>Properties\<close>

subsection \<open>Strings and the Map\<close>

lemma startsWith_iff: "startsWith s p \<longleftrightarrow> (\<exists>r. s = p @ r)"
  by (induction s p rule: startsWith.induct) auto

lemma includes_iff: "String_includes s p \<longleftrightarrow> (\<exists>l r. s = l @ p @ r)"
proof (induction s)
  case Nil
  show ?case by auto
next
  case (Cons c s)
  show ?case
  proof
    assume "String_includes (c # s) p"
    then consider "startsWith (c # s) p" | "String_includes s p" by auto
    then show "\<exists>l r. c # s = l @ p @ r"
    proof cases
      case 1
      then obtain r where "c # s = p @ r" using startsWith_iff by blast
      then have "c # s = [] @ p @ r" by simp
      then show ?thesis by blast
    next
      case 2
      then obtain l r where "s = l @ p @ r" using Cons.IH by blast
      then have "c # s = (c # l) @ p @ r" by simp
      then show ?thesis by blast
    qed
  next
    assume "\<exists>l r. c # s = l @ p @ r"
    then obtain l r where lr: "c # s = l @ p @ r" by blast
    show "String_includes (c # s) p"
    proof (cases l)
      case Nil
      with lr have "startsWith (c # s) p" using startsWith_iff by fastforce
      then show ?thesis by simp
    next
      case (Cons a l')
      with lr have "s = l' @ p @ r" by simp
      then have "String_includes s p" using Cons.IH by blast
      then show ?thesis by simp
    qed
  qed
qed

lemma Map_get_set: "Map_get k' (Map_set k v m) = (if k' = k then Some v else Map_get k' m)"
  by (induction m) (auto simp: Map_get_def)

lemma Map_get_delete: "Map_get k' (Map_delete k m) = (if k' = k then None else Map_get k' m)"
  by (induction m) (auto simp: Map_get_def Map_delete_def)

lemma Map_keys_set: "set (Map_keys (Map_set k v m)) = insert k (set (Map_keys m))"
proof (induction m)
  case Nil
  show ?case by (simp add: Map_keys_def)
next
  case (Cons kv m)
  obtain k' v' where kv: "kv = (k', v')" by (cases kv)
  from Cons.IH have "set (map fst (Map_set k v m)) = insert k (set (map fst m))"
    by (simp add: Map_keys_def)
  with kv show ?case unfolding Map_keys_def by (cases "k' = k") auto
qed

lemma distinct_Map_set: "distinct (Map_keys m) \<Longrightarrow> distinct (Map_keys (Map_set k v m))"
proof (induction m)
  case Nil
  show ?case by (simp add: Map_keys_def)
next
  case (Cons kv m)
  obtain k' v' where kv: "kv = (k', v')" by (cases kv)
  from Cons.prems kv have d: "distinct (Map_keys m)" and n: "k' \<notin> set (Map_keys m)"
    by (simp_all add: Map_keys_def)
  show ?case
  proof (cases "k' = k")
    case True
    with Cons.prems kv show ?thesis by (simp add: Map_keys_def)
  next
    case False
    have "set (Map_keys (Map_set k v m)) = insert k (set (Map_keys m))"
      by (rule Map_keys_set)
    with False n have "k' \<notin> set (Map_keys (Map_set k v m))" by simp
    moreover have "distinct (Map_keys (Map_set k v m))" using Cons.IH d by simp
    ultimately show ?thesis using False kv by (simp add: Map_keys_def)
  qed
qed

lemma invalidate_fold:
  "foldl (\<lambda>c' key. if String_includes key pattern then Map_delete key c' else c') c ks =
   filter (\<lambda>kv. \<not> (fst kv \<in> set ks \<and> String_includes (fst kv) pattern)) c"
proof (induction ks arbitrary: c)
  case Nil
  show ?case by simp
next
  case (Cons k ks)
  show ?case
  proof (cases "String_includes k pattern")
    case True
    have "filter (\<lambda>kv. \<not> (fst kv \<in> set ks \<and> String_includes (fst kv) pattern)) (Map_delete k c) =
          filter (\<lambda>kv. \<not> (fst kv \<in> set (k # ks) \<and> String_includes (fst kv) pattern)) c"
      using True unfolding Map_delete_def filter_filter
      by (intro filter_cong) auto
    with True Cons.IH [of "Map_delete k c"] show ?thesis by simp
  next
    case False
    have "filter (\<lambda>kv. \<not> (fst kv \<in> set ks \<and> String_includes (fst kv) pattern)) c =
          filter (\<lambda>kv. \<not> (fst kv \<in> set (k # ks) \<and> String_includes (fst kv) pattern)) c"
      using False by (intro filter_cong) auto
    with False Cons.IH [of c] show ?thesis by simp
  qed
qed

lemma invalidate_filter:
  "cacheUtils_invalidate pattern c = filter (\<lambda>kv. \<not> String_includes (fst kv) pattern) c"
proof -
  have "filter (\<lambda>kv. \<not> (fst kv \<in> set (Map_keys c) \<and> String_includes (fst kv) pattern)) c =
        filter (\<lambda>kv. \<not> String_includes (fst kv) pattern) c"
    by (intro filter_cong) (auto simp: Map_keys_def)
  then show ?thesis by (simp add: cacheUtils_invalidate_def invalidate_fold)
qed

lemma Map_get_filter_keys:
  "Map_get k (filter (\<lambda>kv. P (fst kv)) m) = (if P k then Map_get k m else None)"
  by (induction m) (auto simp: Map_get_def)

lemma Map_get_invalidate:
  "Map_get k (cacheUtils_invalidate pattern c) = (if String_includes k pattern then None else Map_get k c)"
  using Map_get_filter_keys [where P = "\<lambda>k. \<not> String_includes k pattern" and k = k and m = c]
  by (simp add: invalidate_filter)

subsection \<open>Expiry on read\<close>

lemma get_other_key:
  "k' \<noteq> k \<Longrightarrow> Map_get k (snd (cacheUtils_get now k' c)) = Map_get k c"
  by (simp add: cacheUtils_get_def Map_get_delete split: option.splits)

lemma get_after_set:
  "cacheUtils_get now k (cacheUtils_set storedAt k v t c) =
     (if now - storedAt \<le> t then (Some v, cacheUtils_set storedAt k v t c)
      else (None, Map_delete k (cacheUtils_set storedAt k v t c)))"
  by (simp add: cacheUtils_get_def cacheUtils_set_def Map_get_set)

text \<open>
  C5. An entry stored by \<open>set(k, v, ttl)\<close> at time \<open>storedAt\<close> is valid at time \<open>now\<close> iff
  \<open>now - storedAt \<le> ttl\<close>: \<open>get(k)\<close> returns \<open>v\<close> and leaves the cache alone when the entry is
  valid, and returns absent and deletes the entry when it is not. Hence a \<open>get\<close> at the very
  clock reading of the \<open>set\<close> returns \<open>v\<close> (for a time to live that is not negative), a \<open>get\<close>
  after the time to live has elapsed returns absent, and the expired entry is removed by that
  \<open>get\<close> and by nothing else: a \<open>get\<close> of another key leaves it where it is.
\<close>

theorem cache_get_valid_iff_within_ttl:
  "cacheUtils_get now k (cacheUtils_set storedAt k v t c) =
     (if now - storedAt \<le> t then (Some v, cacheUtils_set storedAt k v t c)
      else (None, Map_delete k (cacheUtils_set storedAt k v t c)))
   \<and> (fst (cacheUtils_get now k (cacheUtils_set storedAt k v t c)) = Some v
        \<longleftrightarrow> now - storedAt \<le> t)
   \<and> (0 \<le> t \<longrightarrow> fst (cacheUtils_get storedAt k (cacheUtils_set storedAt k v t c)) = Some v)
   \<and> (t < now - storedAt \<longrightarrow>
        fst (cacheUtils_get now k (cacheUtils_set storedAt k v t c)) = None \<and>
        Map_get k (snd (cacheUtils_get now k (cacheUtils_set storedAt k v t c))) = None)
   \<and> (k' \<noteq> k \<longrightarrow>
        Map_get k (snd (cacheUtils_get now k' (cacheUtils_set storedAt k v t c))) =
        Some \<lparr>data = v, timestamp = storedAt, ttl = t\<rparr>)"
proof -
  let ?c1 = "cacheUtils_set storedAt k v t c"
  have stored: "Map_get k ?c1 = Some \<lparr>data = v, timestamp = storedAt, ttl = t\<rparr>"
    by (simp add: cacheUtils_set_def Map_get_set)
  have a: "cacheUtils_get now k ?c1 =
     (if now - storedAt \<le> t then (Some v, ?c1) else (None, Map_delete k ?c1))"
    by (rule get_after_set)
  have b: "fst (cacheUtils_get now k ?c1) = Some v \<longleftrightarrow> now - storedAt \<le> t"
    by (simp add: a)
  have c: "0 \<le> t \<longrightarrow> fst (cacheUtils_get storedAt k ?c1) = Some v"
    by (simp add: get_after_set)
  have d: "t < now - storedAt \<longrightarrow>
        fst (cacheUtils_get now k ?c1) = None \<and>
        Map_get k (snd (cacheUtils_get now k ?c1)) = None"
    by (simp add: a Map_get_delete)
  have e: "k' \<noteq> k \<longrightarrow> Map_get k (snd (cacheUtils_get now k' ?c1)) =
        Some \<lparr>data = v, timestamp = storedAt, ttl = t\<rparr>"
    by (simp add: get_other_key stored)
  from a b c d e show ?thesis by blast
qed

theorem cache_get_valid_iff_within_ttl_witness:
  "cacheUtils_get 601000 ''all_categories'' (cacheUtils_set 1000 ''all_categories'' (7::nat) 600000 []) =
     (Some 7, [(''all_categories'', \<lparr>data = 7, timestamp = 1000, ttl = 600000\<rparr>)])
   \<and> (0::int) \<le> 600000
   \<and> fst (cacheUtils_get 1000 ''all_categories''
        (cacheUtils_set 1000 ''all_categories'' (7::nat) 600000 [])) = Some 7
   \<and> (600000::int) < 601001 - 1000
   \<and> cacheUtils_get 601001 ''all_categories'' (cacheUtils_set 1000 ''all_categories'' (7::nat) 600000 []) =
     (None, [])
   \<and> ''count_3'' \<noteq> ''all_categories''
   \<and> Map_get ''all_categories'' (snd (cacheUtils_get 601001 ''count_3''
        (cacheUtils_set 1000 ''all_categories'' (7::nat) 600000 []))) =
      Some \<lparr>data = 7, timestamp = 1000, ttl = 600000\<rparr>"
  using cache_get_valid_iff_within_ttl
          [of 601000 "''all_categories''" 1000 "7::nat" 600000 "[]" "''count_3''"]
        cache_get_valid_iff_within_ttl
          [of 601001 "''all_categories''" 1000 "7::nat" 600000 "[]" "''count_3''"]
  by (simp add: cacheUtils_set_def Map_delete_def)

subsection \<open>Invalidation by substring\<close>

text \<open>
  C6. \<open>invalidate(pattern)\<close> removes exactly the entries whose key contains \<open>pattern\<close> as a
  substring: the cache that is left is the old one without those entries, in the old order;
  a key that contains the pattern is absent afterwards and any other key keeps its entry.
  After \<open>set("wallpaper_42", x, ttl)\<close> and \<open>set("wallpaper_420", y, ttl)\<close>,
  \<open>invalidate("wallpaper_42")\<close> removes both.
\<close>

theorem invalidate_removes_exactly_matching_keys:
  "(String_includes key pattern \<longleftrightarrow> (\<exists>l r. key = l @ pattern @ r))
   \<and> cacheUtils_invalidate pattern c = filter (\<lambda>kv. \<not> String_includes (fst kv) pattern) c
   \<and> Map_get key (cacheUtils_invalidate pattern c) =
       (if String_includes key pattern then None else Map_get key c)
   \<and> Map_get ''wallpaper_42'' (cacheUtils_invalidate ''wallpaper_42''
        (cacheUtils_set t2 ''wallpaper_420'' y ttl2 (cacheUtils_set t1 ''wallpaper_42'' x ttl1 c))) = None
   \<and> Map_get ''wallpaper_420'' (cacheUtils_invalidate ''wallpaper_42''
        (cacheUtils_set t2 ''wallpaper_420'' y ttl2 (cacheUtils_set t1 ''wallpaper_42'' x ttl1 c))) = None"
proof -
  have a: "String_includes key pattern \<longleftrightarrow> (\<exists>l r. key = l @ pattern @ r)"
    by (rule includes_iff)
  have b: "cacheUtils_invalidate pattern c = filter (\<lambda>kv. \<not> String_includes (fst kv) pattern) c"
    by (rule invalidate_filter)
  have c: "Map_get key (cacheUtils_invalidate pattern c) =
       (if String_includes key pattern then None else Map_get key c)"
    by (rule Map_get_invalidate)
  have i1: "String_includes ''wallpaper_42'' ''wallpaper_42''" by simp
  have i2: "String_includes ''wallpaper_420'' ''wallpaper_42''" by simp
  have d: "Map_get ''wallpaper_42'' (cacheUtils_invalidate ''wallpaper_42'' c') = None" for c' :: "'a cache"
    using i1 by (simp add: Map_get_invalidate)
  have e: "Map_get ''wallpaper_420'' (cacheUtils_invalidate ''wallpaper_42'' c') = None" for c' :: "'a cache"
    using i2 by (simp add: Map_get_invalidate)
  from a b c d e show ?thesis by blast
qed

theorem invalidate_removes_exactly_matching_keys_witness:
  "String_includes ''related_c1_wallpaper_42_25'' ''wallpaper_42''
   \<and> cacheUtils_invalidate ''wallpaper_42''
        [(''wallpaper_42'', \<lparr>data = 1::nat, timestamp = 0, ttl = 300000\<rparr>),
         (''category_42'', \<lparr>data = 2, timestamp = 0, ttl = 600000\<rparr>),
         (''related_c1_wallpaper_42_25'', \<lparr>data = 3, timestamp = 0, ttl = 300000\<rparr>)] =
       [(''category_42'', \<lparr>data = 2, timestamp = 0, ttl = 600000\<rparr>)]"
  using invalidate_removes_exactly_matching_keys
          [of "''related_c1_wallpaper_42_25''" "''wallpaper_42''"
              "[(''wallpaper_42'', \<lparr>data = 1::nat, timestamp = 0, ttl = 300000\<rparr>),
                (''category_42'', \<lparr>data = 2, timestamp = 0, ttl = 600000\<rparr>),
                (''related_c1_wallpaper_42_25'', \<lparr>data = 3, timestamp = 0, ttl = 300000\<rparr>)]"]
  by simp

subsection \<open>Invalidation after a remote update\<close>

text \<open>
  C1, as the code has it. \<open>incrementDownloadCount(id)\<close> and \<open>incrementViewCount(id)\<close>
  invalidate the entries whose key contains \<open>wallpaper_<id>\<close> exactly when the remote update
  succeeded, and then return \<open>true\<close>; when the remote update throws, the cache is left as it
  was and the operation returns \<open>false\<close>.
\<close>

theorem increment_invalidates_iff_update_succeeds:
  "fst (incrementDownloadCount updateDoc wid c) = (updateDoc = Resolves)
   \<and> Map_get k (snd (incrementDownloadCount updateDoc wid c)) =
       (if updateDoc = Resolves \<and> String_includes k (''wallpaper_'' @ wid) then None else Map_get k c)
   \<and> (updateDoc = Rejects \<longrightarrow> snd (incrementDownloadCount updateDoc wid c) = c)
   \<and> fst (incrementViewCount updateDoc wid c) = (updateDoc = Resolves)
   \<and> Map_get k (snd (incrementViewCount updateDoc wid c)) =
       (if updateDoc = Resolves \<and> String_includes k (''wallpaper_'' @ wid) then None else Map_get k c)
   \<and> (updateDoc = Rejects \<longrightarrow> snd (incrementViewCount updateDoc wid c) = c)"
  by (cases updateDoc)
     (simp_all add: incrementDownloadCount_def incrementViewCount_def Map_get_invalidate)

theorem increment_invalidates_iff_update_succeeds_witness:
  "incrementDownloadCount Resolves ''7''
      [(''wallpaper_7'', \<lparr>data = 1::nat, timestamp = 0, ttl = 300000\<rparr>)] = (True, [])
   \<and> Rejects = Rejects
   \<and> incrementViewCount Rejects ''7''
      [(''wallpaper_7'', \<lparr>data = 1::nat, timestamp = 0, ttl = 300000\<rparr>)] =
      (False, [(''wallpaper_7'', \<lparr>data = 1::nat, timestamp = 0, ttl = 300000\<rparr>)])"
  using increment_invalidates_iff_update_succeeds
          [of Rejects "''7''" "[(''wallpaper_7'', \<lparr>data = 1::nat, timestamp = 0, ttl = 300000\<rparr>)]"
              "''wallpaper_7''"]
  by (simp add: incrementDownloadCount_def incrementViewCount_def invalidate_filter)

text \<open>
  C1, as the specification states it, fails: with the entry \<open>wallpaper_7\<close> cached and the
  remote update rejected, both operations leave the entry in the cache.
\<close>

theorem increment_rejected_keeps_entry_counterexample:
  "String_includes ''wallpaper_7'' (''wallpaper_'' @ ''7'')
   \<and> Map_get ''wallpaper_7'' (snd (incrementDownloadCount Rejects ''7''
        [(''wallpaper_7'', \<lparr>data = 1::nat, timestamp = 0, ttl = 300000\<rparr>)])) =
      Some \<lparr>data = 1, timestamp = 0, ttl = 300000\<rparr>
   \<and> Map_get ''wallpaper_7'' (snd (incrementViewCount Rejects ''7''
        [(''wallpaper_7'', \<lparr>data = 1::nat, timestamp = 0, ttl = 300000\<rparr>)])) =
      Some \<lparr>data = 1, timestamp = 0, ttl = 300000\<rparr>"
  by (simp add: incrementDownloadCount_def incrementViewCount_def Map_get_def)

subsection \<open>The favorites store\<close>

lemma getFavorites_Inr: "\<exists>xs. fst (getFavorites now getItem st) = Inr xs"
  by (cases getItem) (auto simp: getFavorites_def Let_def split: option.splits)

lemma getFavorites_storage: "storage (snd (getFavorites now getItem st)) = storage st"
  by (cases getItem) (auto simp: getFavorites_def Let_def split: option.splits)

lemma addFavorite_present_removes:
  assumes "fst (getFavorites now getItem st) = Inr favorites" and "wallpaperId \<in> set favorites"
  shows "fst (addFavorite now getItem Resolves now' wallpaperId st) = Inr False"
    and "storage (snd (addFavorite now getItem Resolves now' wallpaperId st)) =
         Some (filter (\<lambda>i. i \<noteq> wallpaperId) favorites)"
    and "favoritesCache (snd (addFavorite now getItem Resolves now' wallpaperId st)) =
         Some (filter (\<lambda>i. i \<noteq> wallpaperId) favorites)"
proof -
  obtain st1 where g: "getFavorites now getItem st = (Inr favorites, st1)"
    using assms(1) by (cases "getFavorites now getItem st") auto
  show "fst (addFavorite now getItem Resolves now' wallpaperId st) = Inr False"
    using assms(2) by (simp add: addFavorite_def toggleFavorite_def g Let_def)
  show "storage (snd (addFavorite now getItem Resolves now' wallpaperId st)) =
         Some (filter (\<lambda>i. i \<noteq> wallpaperId) favorites)"
    using assms(2) by (simp add: addFavorite_def toggleFavorite_def g Let_def)
  show "favoritesCache (snd (addFavorite now getItem Resolves now' wallpaperId st)) =
         Some (filter (\<lambda>i. i \<noteq> wallpaperId) favorites)"
    using assms(2) by (simp add: addFavorite_def toggleFavorite_def g Let_def)
qed

text \<open>
  C2. \<open>addFavorite\<close> calls \<open>toggleFavorite\<close> without looking at the list first. With
  \<open>["a"]\<close> persisted, \<open>addFavorite("a")\<close> removes \<open>"a"\<close>: the persisted list and the
  mirror become empty and the call returns \<open>false\<close>; lemma \<open>addFavorite_present_removes\<close>
  has the general case. (\<open>removeFavorite\<close> does look first: lemma \<open>removeFavorite_absent\<close>.)
\<close>

theorem addFavorite_already_favorite_removes:
  "addFavorite 1000 Resolves Resolves 1001 ''a''
      \<lparr>storage = Some [''a''], favoritesCache = None, cacheTimestamp = 0\<rparr> =
   (Inr False, \<lparr>storage = Some [], favoritesCache = Some [], cacheTimestamp = 1001\<rparr>)"
  by (simp add: addFavorite_def toggleFavorite_def getFavorites_def parse_stored_def Let_def)

lemma removeFavorite_absent:
  "fst (getFavorites now0 getItem0 st) = Inr favorites \<Longrightarrow> wallpaperId \<notin> set favorites \<Longrightarrow>
   fst (removeFavorite now0 getItem0 now getItem setItem now' wallpaperId st) = Inr True \<and>
   storage (snd (removeFavorite now0 getItem0 now getItem setItem now' wallpaperId st)) = storage st"
  using getFavorites_storage [of now0 getItem0 st]
  by (cases "getFavorites now0 getItem0 st") (auto simp: removeFavorite_def)

text \<open>
  C3, as the specification states it, fails on reads: with the mirror unset and the read of
  the blob rejected, \<open>getFavorites\<close> returns the empty list instead of raising, and
  \<open>toggleFavorite\<close> returns a result too.
\<close>

theorem getFavorites_read_failure_counterexample:
  "getFavorites 1000 Rejects \<lparr>storage = Some [''a''], favoritesCache = None, cacheTimestamp = 0\<rparr> =
   (Inr [], \<lparr>storage = Some [''a''], favoritesCache = None, cacheTimestamp = 0\<rparr>)
   \<and> fst (toggleFavorite 1000 Rejects Resolves 1001 ''b''
        \<lparr>storage = Some [''a''], favoritesCache = None, cacheTimestamp = 0\<rparr>) =
     Inr \<lparr>isFavorite = True, message = ''Ajout'' @ [CHR 0xE9] @ '' aux favoris''\<rparr>"
  by (simp add: toggleFavorite_def getFavorites_def parse_stored_def Let_def)

text \<open>
  C3, as the code has it. \<open>getFavorites\<close> never raises: a rejected read of the blob is
  caught and the empty list is returned, the state unchanged. A rejected write is raised as
  an \<open>Error\<close> by \<open>toggleFavorite\<close>, \<open>clearFavorites\<close> and \<open>importFavorites\<close>.
\<close>

theorem favorites_write_failures_raise:
  "(\<exists>favorites. fst (getFavorites now getItem st) = Inr favorites)
   \<and> (favoritesCache st = None \<or> CACHE_DURATION \<le> now - cacheTimestamp st
        \<longrightarrow> getFavorites now Rejects st = (Inr [], st))
   \<and> fst (toggleFavorite now getItem Rejects now' wallpaperId st) =
       Inl (Error (''Erreur lors de la mise '' @ [CHR 0xE0] @ '' jour des favoris''))
   \<and> fst (clearFavorites Rejects now st) =
       Inl (Error ''Erreur lors de la suppression des favoris'')
   \<and> fst (importFavorites Rejects now favoriteIds st) =
       Inl (Error (''Erreur lors de l'' @ [CHR 0x27] @ ''importation des favoris''))"
proof -
  have a: "\<exists>favorites. fst (getFavorites now getItem st) = Inr favorites"
    by (rule getFavorites_Inr)
  have b: "favoritesCache st = None \<or> CACHE_DURATION \<le> now - cacheTimestamp st
        \<longrightarrow> getFavorites now Rejects st = (Inr [], st)"
    by (auto simp: getFavorites_def Let_def split: option.splits)
  obtain favorites st1 where g: "getFavorites now getItem st = (Inr favorites, st1)"
    using a by (cases "getFavorites now getItem st") auto
  have c: "fst (toggleFavorite now getItem Rejects now' wallpaperId st) =
       Inl (Error (''Erreur lors de la mise '' @ [CHR 0xE0] @ '' jour des favoris''))"
    by (simp add: toggleFavorite_def g Let_def)
  have d: "fst (clearFavorites Rejects now st) =
       Inl (Error ''Erreur lors de la suppression des favoris'')"
    by (simp add: clearFavorites_def)
  have e: "fst (importFavorites Rejects now favoriteIds st) =
       Inl (Error (''Erreur lors de l'' @ [CHR 0x27] @ ''importation des favoris''))"
    by (simp add: importFavorites_def)
  from a b c d e show ?thesis by blast
qed

theorem favorites_write_failures_raise_witness:
  "favoritesCache \<lparr>storage = Some [''w0''], favoritesCache = None, cacheTimestamp = 0\<rparr> = None
   \<and> getFavorites 1000 Rejects \<lparr>storage = Some [''w0''], favoritesCache = None, cacheTimestamp = 0\<rparr> =
      (Inr [], \<lparr>storage = Some [''w0''], favoritesCache = None, cacheTimestamp = 0\<rparr>)
   \<and> fst (clearFavorites Rejects 1000
        \<lparr>storage = Some [''w0''], favoritesCache = None, cacheTimestamp = 0\<rparr>) =
      Inl (Error ''Erreur lors de la suppression des favoris'')"
  using favorites_write_failures_raise
    [of 1000 Resolves "\<lparr>storage = Some [''w0''], favoritesCache = None, cacheTimestamp = 0\<rparr>"
        1001 "''w1''" "[]"]
  by (simp add: clearFavorites_def)

lemma toggle_Resolves:
  assumes "fst (getFavorites now getItem st) = Inr favorites"
  shows "\<exists>st'. toggleFavorite now getItem Resolves now' w st =
           (Inr \<lparr>isFavorite = (w \<notin> set favorites),
                 message = (if w \<in> set favorites then ''Retir'' @ [CHR 0xE9] @ '' des favoris''
                            else ''Ajout'' @ [CHR 0xE9] @ '' aux favoris'')\<rparr>, st')
         \<and> storage st' = Some (if w \<in> set favorites then filter (\<lambda>i. i \<noteq> w) favorites
                               else favorites @ [w])
         \<and> favoritesCache st' = storage st'
         \<and> cacheTimestamp st' = now'"
proof -
  obtain st1 where g: "getFavorites now getItem st = (Inr favorites, st1)"
    using assms by (cases "getFavorites now getItem st") auto
  show ?thesis by (simp add: toggleFavorite_def g Let_def)
qed

lemma getFavorites_initially_empty:
  assumes "parse_stored (storage st) = []"
    and "favoritesCache st = None \<or> favoritesCache st = Some []"
  shows "fst (getFavorites now getItem st) = Inr []"
  using assms by (cases getItem) (auto simp: getFavorites_def Let_def)

lemma getFavorites_mirror_eq_storage:
  assumes "favoritesCache st = storage st" and "storage st = Some favorites"
  shows "\<exists>st'. getFavorites now Resolves st = (Inr favorites, st')
           \<and> favoritesCache st' = storage st' \<and> storage st' = Some favorites"
  using assms by (auto simp: getFavorites_def Let_def parse_stored_def)

text \<open>
  C8. Starting from an empty favorites set (nothing persisted, the mirror unset or empty) and
  with every storage call resolving, for every id and all clock readings:
  \<open>toggleFavorite(id)\<close> returns \<open>isFavorite = true\<close>, \<open>getFavorites()\<close> then returns
  \<open>[id]\<close>, a second \<open>toggleFavorite(id)\<close> returns \<open>isFavorite = false\<close>, and
  \<open>getFavorites()\<close> then returns the empty list.
\<close>

theorem toggle_twice_round_trip:
  assumes "parse_stored (storage st) = []"
    and "favoritesCache st = None \<or> favoritesCache st = Some []"
  shows "\<exists>m1 m2 st1 st2 st3 st4.
     toggleFavorite t1 Resolves Resolves t1' w st = (Inr \<lparr>isFavorite = True, message = m1\<rparr>, st1)
     \<and> getFavorites t2 Resolves st1 = (Inr [w], st2)
     \<and> toggleFavorite t3 Resolves Resolves t3' w st2 = (Inr \<lparr>isFavorite = False, message = m2\<rparr>, st3)
     \<and> getFavorites t4 Resolves st3 = (Inr [], st4)
     \<and> storage st1 = Some [w] \<and> storage st3 = Some []"
proof -
  have g0: "fst (getFavorites t1 Resolves st) = Inr []"
    using assms by (rule getFavorites_initially_empty)
  from toggle_Resolves [OF g0, of t1' w]
  obtain m1 st1 where
    r1: "toggleFavorite t1 Resolves Resolves t1' w st = (Inr \<lparr>isFavorite = True, message = m1\<rparr>, st1)"
    and s1: "storage st1 = Some [w]" and c1: "favoritesCache st1 = storage st1"
    by auto
  from getFavorites_mirror_eq_storage [OF c1 s1, of t2]
  obtain st2 where g1: "getFavorites t2 Resolves st1 = (Inr [w], st2)"
    and c2: "favoritesCache st2 = storage st2" and s2: "storage st2 = Some [w]"
    by auto
  from getFavorites_mirror_eq_storage [OF c2 s2, of t3]
  have g2: "fst (getFavorites t3 Resolves st2) = Inr [w]" by auto
  from toggle_Resolves [OF g2, of t3' w]
  obtain m2 st3 where
    r2: "toggleFavorite t3 Resolves Resolves t3' w st2 = (Inr \<lparr>isFavorite = False, message = m2\<rparr>, st3)"
    and s3: "storage st3 = Some []" and c3: "favoritesCache st3 = storage st3"
    by auto
  from getFavorites_mirror_eq_storage [OF c3 s3, of t4]
  obtain st4 where g3: "getFavorites t4 Resolves st3 = (Inr [], st4)" by auto
  from r1 g1 r2 g3 s1 s3 show ?thesis by blast
qed

theorem toggle_twice_round_trip_witness:
  "parse_stored (storage \<lparr>storage = None, favoritesCache = None, cacheTimestamp = 0\<rparr>) = []
   \<and> favoritesCache \<lparr>storage = None, favoritesCache = None, cacheTimestamp = 0\<rparr> = None
   \<and> (\<exists>m1 m2 st1 st2 st3 st4.
        toggleFavorite 1000 Resolves Resolves 1001 ''w1''
          \<lparr>storage = None, favoritesCache = None, cacheTimestamp = 0\<rparr> =
            (Inr \<lparr>isFavorite = True, message = m1\<rparr>, st1)
        \<and> getFavorites 400000 Resolves st1 = (Inr [''w1''], st2)
        \<and> toggleFavorite 400001 Resolves Resolves 400002 ''w1'' st2 =
            (Inr \<lparr>isFavorite = False, message = m2\<rparr>, st3)
        \<and> getFavorites 400003 Resolves st3 = (Inr [], st4)
        \<and> storage st1 = Some [''w1''] \<and> storage st3 = Some [])"
  using toggle_twice_round_trip
          [of "\<lparr>storage = None, favoritesCache = None, cacheTimestamp = 0\<rparr>"
              1000 1001 "''w1''" 400000 400001 400002 400003]
  by (simp add: parse_stored_def)

lemma getFavorites_keeps_converged:
  assumes "favoritesCache s = Some (parse_stored (storage s))"
  shows "favoritesCache (snd (getFavorites t g s)) =
         Some (parse_stored (storage (snd (getFavorites t g s))))"
  using assms by (cases g) (auto simp: getFavorites_def Let_def)

lemma toggleFavorite_keeps_converged:
  assumes "favoritesCache s = Some (parse_stored (storage s))"
  shows "favoritesCache (snd (toggleFavorite t g wr t2 w s)) =
         Some (parse_stored (storage (snd (toggleFavorite t g wr t2 w s))))"
proof (cases wr)
  case Resolves
  obtain favorites where "fst (getFavorites t g s) = Inr favorites"
    using getFavorites_Inr by blast
  from toggle_Resolves [OF this, of t2 w] Resolves show ?thesis
    by (auto simp: parse_stored_def)
next
  case Rejects
  obtain favorites s1 where g: "getFavorites t g s = (Inr favorites, s1)"
    using getFavorites_Inr [of t g s] by (cases "getFavorites t g s") auto
  with Rejects have "snd (toggleFavorite t g wr t2 w s) = snd (getFavorites t g s)"
    by (simp add: toggleFavorite_def Let_def)
  with getFavorites_keeps_converged [OF assms, of t g] show ?thesis by simp
qed

text \<open>
  C9. After every successful \<open>toggleFavorite\<close>, \<open>clearFavorites\<close> and \<open>importFavorites\<close>
  the mirror holds the persisted list. Once it does, it does so after every further
  operation, failed ones included, and \<open>getFavorites\<close> returns the persisted list at every
  clock reading. Whenever \<open>getFavorites\<close> (its read resolving) returns something else than
  the persisted list, it returned the mirror, and the mirror was younger than
  \<open>CACHE_DURATION\<close> (5 minutes).
\<close>

theorem mirror_equals_persisted_after_mutation:
  "(toggleFavorite now getItem setItem now' w st = (Inr r, sa)
      \<longrightarrow> favoritesCache sa = Some (parse_stored (storage sa)))
   \<and> (clearFavorites removeItem nowc stc = (Inr u, sb)
      \<longrightarrow> favoritesCache sb = Some (parse_stored (storage sb)))
   \<and> (importFavorites setItemi nowi favoriteIds sti = (Inr u', sc)
      \<longrightarrow> favoritesCache sc = Some (parse_stored (storage sc)))
   \<and> (favoritesCache s = Some (parse_stored (storage s))
      \<longrightarrow> fst (getFavorites t Resolves s) = Inr (parse_stored (storage s))
          \<and> favoritesCache (snd (getFavorites t g s)) =
              Some (parse_stored (storage (snd (getFavorites t g s))))
          \<and> favoritesCache (snd (toggleFavorite t g wr tw wid s)) =
              Some (parse_stored (storage (snd (toggleFavorite t g wr tw wid s))))
          \<and> favoritesCache (snd (clearFavorites wr t s)) =
              Some (parse_stored (storage (snd (clearFavorites wr t s))))
          \<and> favoritesCache (snd (importFavorites wr t ids s)) =
              Some (parse_stored (storage (snd (importFavorites wr t ids s)))))
   \<and> (fst (getFavorites t' Resolves s') \<noteq> Inr (parse_stored (storage s'))
      \<longrightarrow> (\<exists>cached. favoritesCache s' = Some cached
                \<and> fst (getFavorites t' Resolves s') = Inr cached)
          \<and> t' - cacheTimestamp s' < CACHE_DURATION)"
proof -
  have a: "toggleFavorite now getItem setItem now' w st = (Inr r, sa)
      \<longrightarrow> favoritesCache sa = Some (parse_stored (storage sa))"
  proof
    assume h: "toggleFavorite now getItem setItem now' w st = (Inr r, sa)"
    then have res: "setItem = Resolves"
      by (cases setItem; cases "getFavorites now getItem st")
         (auto simp: toggleFavorite_def Let_def split: sum.splits)
    obtain favorites where "fst (getFavorites now getItem st) = Inr favorites"
      using getFavorites_Inr by blast
    from toggle_Resolves [OF this, of now' w] h res
    show "favoritesCache sa = Some (parse_stored (storage sa))"
      by (auto simp: parse_stored_def)
  qed
  have b: "clearFavorites removeItem nowc stc = (Inr u, sb)
      \<longrightarrow> favoritesCache sb = Some (parse_stored (storage sb))"
    by (cases removeItem) (auto simp: clearFavorites_def parse_stored_def)
  have c: "importFavorites setItemi nowi favoriteIds sti = (Inr u', sc)
      \<longrightarrow> favoritesCache sc = Some (parse_stored (storage sc))"
    by (cases setItemi) (auto simp: importFavorites_def parse_stored_def Let_def)
  have d: "fst (getFavorites t Resolves s) = Inr (parse_stored (storage s))
          \<and> favoritesCache (snd (getFavorites t g s)) =
              Some (parse_stored (storage (snd (getFavorites t g s))))
          \<and> favoritesCache (snd (toggleFavorite t g wr tw wid s)) =
              Some (parse_stored (storage (snd (toggleFavorite t g wr tw wid s))))
          \<and> favoritesCache (snd (clearFavorites wr t s)) =
              Some (parse_stored (storage (snd (clearFavorites wr t s))))
          \<and> favoritesCache (snd (importFavorites wr t ids s)) =
              Some (parse_stored (storage (snd (importFavorites wr t ids s))))"
    if conv: "favoritesCache s = Some (parse_stored (storage s))"
  proof (intro conjI)
    show "fst (getFavorites t Resolves s) = Inr (parse_stored (storage s))"
      using conv by (auto simp: getFavorites_def Let_def)
    show "favoritesCache (snd (getFavorites t g s)) =
              Some (parse_stored (storage (snd (getFavorites t g s))))"
      using conv by (rule getFavorites_keeps_converged)
    show "favoritesCache (snd (toggleFavorite t g wr tw wid s)) =
              Some (parse_stored (storage (snd (toggleFavorite t g wr tw wid s))))"
      using conv by (rule toggleFavorite_keeps_converged)
    show "favoritesCache (snd (clearFavorites wr t s)) =
              Some (parse_stored (storage (snd (clearFavorites wr t s))))"
      using conv by (cases wr) (auto simp: clearFavorites_def parse_stored_def)
    show "favoritesCache (snd (importFavorites wr t ids s)) =
              Some (parse_stored (storage (snd (importFavorites wr t ids s))))"
      using conv by (cases wr) (auto simp: importFavorites_def parse_stored_def Let_def)
  qed
  have e: "fst (getFavorites t' Resolves s') \<noteq> Inr (parse_stored (storage s'))
      \<longrightarrow> (\<exists>cached. favoritesCache s' = Some cached
                \<and> fst (getFavorites t' Resolves s') = Inr cached)
          \<and> t' - cacheTimestamp s' < CACHE_DURATION"
    by (auto simp: getFavorites_def Let_def split: option.splits if_splits)
  from a b c d e show ?thesis by blast
qed

theorem mirror_equals_persisted_after_mutation_witness:
  "toggleFavorite 1000 Rejects Resolves 1001 ''w1''
      \<lparr>storage = Some [''w0''], favoritesCache = Some [''w0''], cacheTimestamp = 900\<rparr> =
     (Inr \<lparr>isFavorite = True, message = ''Ajout'' @ [CHR 0xE9] @ '' aux favoris''\<rparr>,
      \<lparr>storage = Some [''w0'', ''w1''], favoritesCache = Some [''w0'', ''w1''], cacheTimestamp = 1001\<rparr>)
   \<and> favoritesCache \<lparr>storage = Some [''w0'', ''w1''], favoritesCache = Some [''w0'', ''w1''],
        cacheTimestamp = 1001\<rparr> =
      Some (parse_stored (storage \<lparr>storage = Some [''w0'', ''w1''],
        favoritesCache = Some [''w0'', ''w1''], cacheTimestamp = 1001\<rparr>))
   \<and> clearFavorites Resolves 2000
        \<lparr>storage = Some [''w0''], favoritesCache = None, cacheTimestamp = 0\<rparr> =
     (Inr (), \<lparr>storage = None, favoritesCache = Some [], cacheTimestamp = 2000\<rparr>)
   \<and> favoritesCache \<lparr>storage = None, favoritesCache = Some [], cacheTimestamp = 2000\<rparr> =
      Some (parse_stored (storage \<lparr>storage = None, favoritesCache = Some [], cacheTimestamp = 2000\<rparr>))
   \<and> importFavorites Resolves 3000 [''wid'', [], ''w3'']
        \<lparr>storage = None, favoritesCache = None, cacheTimestamp = 0\<rparr> =
     (Inr (), \<lparr>storage = Some [''wid'', ''w3''], favoritesCache = Some [''wid'', ''w3''],
        cacheTimestamp = 3000\<rparr>)
   \<and> favoritesCache \<lparr>storage = Some [''wid'', ''w3''], favoritesCache = Some [''wid'', ''w3''],
        cacheTimestamp = 3000\<rparr> =
      Some (parse_stored (storage \<lparr>storage = Some [''wid'', ''w3''],
        favoritesCache = Some [''wid'', ''w3''], cacheTimestamp = 3000\<rparr>))
   \<and> fst (getFavorites 900000 Resolves \<lparr>storage = Some [''wid'', ''w3''],
        favoritesCache = Some [''wid'', ''w3''], cacheTimestamp = 3000\<rparr>) = Inr [''wid'', ''w3'']
   \<and> snd (toggleFavorite 900000 Rejects Rejects 900001 ''w4'' \<lparr>storage = Some [''wid'', ''w3''],
        favoritesCache = Some [''wid'', ''w3''], cacheTimestamp = 3000\<rparr>) =
      \<lparr>storage = Some [''wid'', ''w3''], favoritesCache = Some [''wid'', ''w3''], cacheTimestamp = 3000\<rparr>
   \<and> fst (getFavorites 4000 Resolves
        \<lparr>storage = Some [''w5''], favoritesCache = Some [], cacheTimestamp = 3000\<rparr>) \<noteq>
      Inr (parse_stored (storage
        \<lparr>storage = Some [''w5''], favoritesCache = Some [], cacheTimestamp = 3000\<rparr>))
   \<and> 4000 - cacheTimestamp \<lparr>storage = Some [''w5''], favoritesCache = Some [], cacheTimestamp = 3000\<rparr>
        < CACHE_DURATION"
  using mirror_equals_persisted_after_mutation
    [where now = 1000 and getItem = Rejects and setItem = Resolves and now' = 1001 and w = "''w1''"
       and st = "\<lparr>storage = Some [''w0''], favoritesCache = Some [''w0''], cacheTimestamp = 900\<rparr>"
       and r = "\<lparr>isFavorite = True, message = ''Ajout'' @ [CHR 0xE9] @ '' aux favoris''\<rparr>"
       and sa = "\<lparr>storage = Some [''w0'', ''w1''], favoritesCache = Some [''w0'', ''w1''],
                  cacheTimestamp = 1001\<rparr>"
       and removeItem = Resolves and nowc = 2000
       and stc = "\<lparr>storage = Some [''w0''], favoritesCache = None, cacheTimestamp = 0\<rparr>"
       and u = "()"
       and sb = "\<lparr>storage = None, favoritesCache = Some [], cacheTimestamp = 2000\<rparr>"
       and setItemi = Resolves and nowi = 3000 and favoriteIds = "[''wid'', [], ''w3'']"
       and sti = "\<lparr>storage = None, favoritesCache = None, cacheTimestamp = 0\<rparr>"
       and u' = "()"
       and sc = "\<lparr>storage = Some [''wid'', ''w3''], favoritesCache = Some [''wid'', ''w3''],
                  cacheTimestamp = 3000\<rparr>"
       and s = "\<lparr>storage = Some [''wid'', ''w3''], favoritesCache = Some [''wid'', ''w3''],
                 cacheTimestamp = 3000\<rparr>"
       and t = 900000 and g = Rejects and wr = Rejects and tw = 900001 and wid = "''w4''"
       and ids = "[]" and t' = 4000
       and s' = "\<lparr>storage = Some [''w5''], favoritesCache = Some [], cacheTimestamp = 3000\<rparr>"]
  by (simp add: toggleFavorite_def getFavorites_def clearFavorites_def importFavorites_def
        parse_stored_def CACHE_DURATION_def Let_def)

subsection \<open>Search and pagination\<close>

lemma trim_empty_iff: "trim s = [] \<longleftrightarrow> (\<forall>ch \<in> set s. isWhiteSpace ch)"
proof
  assume "trim s = []"
  then have "dropWhile isWhiteSpace (rev (dropWhile isWhiteSpace s)) = []"
    by (simp add: trim_def)
  then have "\<forall>ch \<in> set (rev (dropWhile isWhiteSpace s)). isWhiteSpace ch"
    by (simp add: dropWhile_eq_Nil_conv)
  then have a: "\<forall>ch \<in> set (dropWhile isWhiteSpace s). isWhiteSpace ch" by simp
  show "\<forall>ch \<in> set s. isWhiteSpace ch"
  proof (cases "dropWhile isWhiteSpace s")
    case Nil
    then show ?thesis by (simp add: dropWhile_eq_Nil_conv)
  next
    case (Cons x xs)
    then have "\<not> isWhiteSpace x" using hd_dropWhile [of isWhiteSpace s] by auto
    with a Cons show ?thesis by auto
  qed
next
  assume "\<forall>ch \<in> set s. isWhiteSpace ch"
  then have d: "dropWhile isWhiteSpace s = []" by (induction s) auto
  show "trim s = []" unfolding trim_def d by simp
qed

text \<open>
  C10. For every search term that consists of white space only (the empty string included)
  and every limit, \<open>searchWallpapers\<close> returns the empty list at once: the cache is left as
  it was, and no cache read, no remote query and no cache write is made.
\<close>

theorem search_blank_term_does_nothing:
  assumes "\<forall>ch \<in> set searchTerm. isWhiteSpace ch"
  shows "searchWallpapers js fs now now' searchTerm limitCount c = (Objects [], c, [])"
proof -
  from assms have "trim searchTerm = []" by (simp add: trim_empty_iff)
  then show ?thesis by (simp add: searchWallpapers_def)
qed

text \<open>
  An instance: a term of a space, a tab and a line feed has no letters, so both case mappings
  leave it as it is.
\<close>

theorem search_blank_term_does_nothing_witness:
  "isWhiteSpace CHR '' '' \<and> isWhiteSpace (CHR 0x09) \<and> isWhiteSpace (CHR 0x0A)
   \<and> searchWallpapers
        \<lparr>toLowerCase = (\<lambda>s. s), toUpperCase = (\<lambda>s. s)\<rparr>
        \<lparr>builds = (\<lambda>q. True), getDocs = (\<lambda>q :: unit fs_query. Fulfilled [])\<rparr>
        1000 1001 [CHR '' '', CHR 0x09, CHR 0x0A] 20
        [(''all_categories'', \<lparr>data = Number 0, timestamp = 0, ttl = 1\<rparr>)] =
      (Objects [], [(''all_categories'', \<lparr>data = Number 0, timestamp = 0, ttl = 1\<rparr>)], [])"
  using search_blank_term_does_nothing
          [where searchTerm = "[CHR '' '', CHR 0x09, CHR 0x0A]"
             and js = "\<lparr>toLowerCase = (\<lambda>s. s), toUpperCase = (\<lambda>s. s)\<rparr>"
             and fs = "\<lparr>builds = (\<lambda>q. True), getDocs = (\<lambda>q :: unit fs_query. Fulfilled [])\<rparr>"
             and now = 1000 and now' = 1001 and limitCount = 20
             and c = "[(''all_categories'', \<lparr>data = Number 0, timestamp = 0, ttl = 1\<rparr>)]"]
  by (simp add: isWhiteSpace_def)

lemma after_nth:
  "distinct ds \<Longrightarrow> i < length ds \<Longrightarrow> after_cursor ds (Some (ds ! i)) = drop (Suc i) ds"
proof (induction ds arbitrary: i)
  case Nil
  then show ?case by simp
next
  case (Cons a ds)
  show ?case
  proof (cases i)
    case 0
    then show ?thesis by (simp add: after_cursor_def)
  next
    case (Suc j)
    with Cons.prems have j: "j < length ds" and d: "distinct ds" and a: "a \<notin> set ds" by simp_all
    from j a have "ds ! j \<noteq> a" by (metis nth_mem)
    then have "after_cursor (a # ds) (Some ((a # ds) ! i)) = after_cursor ds (Some (ds ! j))"
      using Suc by (simp add: after_cursor_def)
    with Cons.IH [OF d j] Suc show ?thesis by simp
  qed
qed

lemma category_page:
  assumes "builds fs (ByCategory cat lim (case pag of None \<Rightarrow> None | Some p \<Rightarrow> lastDoc p))"
    and "getDocs fs (ByCategory cat lim (case pag of None \<Rightarrow> None | Some p \<Rightarrow> lastDoc p)) = Fulfilled docs"
  shows "getWallpapersByCategory fs cat lim pag =
           (map with_id docs,
            \<lparr>lastDoc = (if docs = [] then None else Some (last docs)),
             hasMore = (int (length docs) = lim)\<rparr>)"
  using assms by (simp add: getWallpapersByCategory_def Let_def)

lemma paging_store_page:
  "getWallpapersByCategory (paging_store ds) cat lim pag =
     (map with_id (take (nat lim) (after_cursor ds (case pag of None \<Rightarrow> None | Some p \<Rightarrow> lastDoc p))),
      \<lparr>lastDoc = (if take (nat lim) (after_cursor ds (case pag of None \<Rightarrow> None | Some p \<Rightarrow> lastDoc p)) = []
                  then None
                  else Some (last (take (nat lim) (after_cursor ds (case pag of None \<Rightarrow> None | Some p \<Rightarrow> lastDoc p))))),
       hasMore = (int (length (take (nat lim) (after_cursor ds (case pag of None \<Rightarrow> None | Some p \<Rightarrow> lastDoc p)))) = lim)\<rparr>)"
  by (rule category_page) (simp_all add: paging_store_def)

lemma last_full_page:
  assumes d: "distinct ds" and P: "0 < P" and len: "length ds = n + P"
    and cur: "start = (if n = 0 then None else Some (ds ! (n - 1)))"
  shows "take P (after_cursor ds start) = drop n ds"
    and "length (drop n ds) = P"
    and "drop n ds \<noteq> []"
    and "last (drop n ds) = last ds"
    and "after_cursor ds (Some (last ds)) = []"
proof -
  have a: "after_cursor ds start = drop n ds"
  proof (cases "n = 0")
    case True
    with cur show ?thesis by (simp add: after_cursor_def)
  next
    case False
    then have "n - 1 < length ds" and "Suc (n - 1) = n" using len by simp_all
    with after_nth [OF d, of "n - 1"] cur False show ?thesis by simp
  qed
  show l: "length (drop n ds) = P" using len by simp
  then show "take P (after_cursor ds start) = drop n ds" using a by simp
  show ne: "drop n ds \<noteq> []" using l P by auto
  show "last (drop n ds) = last ds" using len P by (simp add: last_drop)
  have nonempty: "ds \<noteq> []" using len P by auto
  then have "last ds = ds ! (length ds - 1)" by (rule last_conv_nth)
  moreover have "length ds - 1 < length ds" using nonempty by simp
  ultimately have "after_cursor ds (Some (last ds)) = drop (Suc (length ds - 1)) ds"
    using after_nth [OF d, of "length ds - 1"] by simp
  then show "after_cursor ds (Some (last ds)) = []" by simp
qed

text \<open>
  C4. For every category, limit and cursor, when the remote query returns the page \<open>docs\<close>,
  \<open>getWallpapersByCategory\<close> returns the objects of that page, \<open>hasMore\<close> is true iff the
  page has exactly \<open>limit\<close> documents, and \<open>lastDoc\<close> is the last document of the page
  (\<open>null\<close> for an empty page). Consequently, over a store that holds \<open>k * P\<close> documents and
  is read in pages of \<open>P\<close>, the last full page comes with \<open>hasMore = true\<close> although nothing
  is left: the fetch from its cursor returns the empty page.
\<close>

theorem pagination_hasMore_iff_full_page:
  "(builds fs (ByCategory cat lim (case pag of None \<Rightarrow> None | Some p \<Rightarrow> lastDoc p))
    \<and> getDocs fs (ByCategory cat lim (case pag of None \<Rightarrow> None | Some p \<Rightarrow> lastDoc p)) = Fulfilled docs
    \<longrightarrow> getWallpapersByCategory fs cat lim pag =
          (map with_id docs,
           \<lparr>lastDoc = (if docs = [] then None else Some (last docs)),
            hasMore = (int (length docs) = lim)\<rparr>))
   \<and> (distinct ds \<and> 0 < P \<and> 0 < k \<and> length ds = k * P
    \<longrightarrow> (let cursor = (if k = 1 then None
                        else Some \<lparr>lastDoc = Some (ds ! ((k - 1) * P - 1)), hasMore = True\<rparr>);
             last_page = getWallpapersByCategory (paging_store ds) cat' (int P) cursor
         in fst last_page = map with_id (drop ((k - 1) * P) ds)
            \<and> snd last_page = \<lparr>lastDoc = Some (last ds), hasMore = True\<rparr>
            \<and> getWallpapersByCategory (paging_store ds) cat' (int P) (Some (snd last_page)) =
                ([], \<lparr>lastDoc = None, hasMore = False\<rparr>)))"
proof (intro conjI impI)
  assume "builds fs (ByCategory cat lim (case pag of None \<Rightarrow> None | Some p \<Rightarrow> lastDoc p))
    \<and> getDocs fs (ByCategory cat lim (case pag of None \<Rightarrow> None | Some p \<Rightarrow> lastDoc p)) = Fulfilled docs"
  then show "getWallpapersByCategory fs cat lim pag =
          (map with_id docs,
           \<lparr>lastDoc = (if docs = [] then None else Some (last docs)),
            hasMore = (int (length docs) = lim)\<rparr>)"
    using category_page by blast
next
  assume h: "distinct ds \<and> 0 < P \<and> 0 < k \<and> length ds = k * P"
  define n where "n = (k - 1) * P"
  define cursor :: "'b PaginationState option" where
    "cursor = (if k = 1 then None else Some \<lparr>lastDoc = Some (ds ! (n - 1)), hasMore = True\<rparr>)"
  define start where "start = (case cursor of None \<Rightarrow> None | Some p \<Rightarrow> lastDoc p)"
  from h obtain k' where k': "k = Suc k'" by (cases k) auto
  have len: "length ds = n + P" using h k' by (simp add: n_def)
  have n0: "n = 0 \<longleftrightarrow> k = 1" using h k' by (simp add: n_def)
  have st: "start = (if n = 0 then None else Some (ds ! (n - 1)))"
    by (simp add: start_def cursor_def n0)
  from h have d: "distinct ds" and P: "0 < P" by simp_all
  note lp = last_full_page [OF d P len st]
  have page: "getWallpapersByCategory (paging_store ds) cat' (int P) cursor =
      (map with_id (drop n ds), \<lparr>lastDoc = Some (last ds), hasMore = True\<rparr>)"
    unfolding paging_store_page using lp by (simp add: start_def [symmetric])
  have nxt: "getWallpapersByCategory (paging_store ds) cat' (int P)
      (Some \<lparr>lastDoc = Some (last ds), hasMore = True\<rparr>) = ([], \<lparr>lastDoc = None, hasMore = False\<rparr>)"
    unfolding paging_store_page using lp(5) P by simp
  show "let cursor = (if k = 1 then None
                        else Some \<lparr>lastDoc = Some (ds ! ((k - 1) * P - 1)), hasMore = True\<rparr>);
             last_page = getWallpapersByCategory (paging_store ds) cat' (int P) cursor
         in fst last_page = map with_id (drop ((k - 1) * P) ds)
            \<and> snd last_page = \<lparr>lastDoc = Some (last ds), hasMore = True\<rparr>
            \<and> getWallpapersByCategory (paging_store ds) cat' (int P) (Some (snd last_page)) =
                ([], \<lparr>lastDoc = None, hasMore = False\<rparr>)"
    using page nxt unfolding Let_def cursor_def n_def by simp
qed


theorem pagination_hasMore_iff_full_page_witness:
  "builds (paging_store
       [\<lparr>doc_id = ''a'', doc_data = (Map.empty :: unit object)\<rparr>, \<lparr>doc_id = ''b'', doc_data = Map.empty\<rparr>,
        \<lparr>doc_id = ''c'', doc_data = Map.empty\<rparr>, \<lparr>doc_id = ''d'', doc_data = Map.empty\<rparr>])
     (ByCategory ''c1'' 2 None)
   \<and> getDocs (paging_store
       [\<lparr>doc_id = ''a'', doc_data = (Map.empty :: unit object)\<rparr>, \<lparr>doc_id = ''b'', doc_data = Map.empty\<rparr>,
        \<lparr>doc_id = ''c'', doc_data = Map.empty\<rparr>, \<lparr>doc_id = ''d'', doc_data = Map.empty\<rparr>])
     (ByCategory ''c1'' 2 None) =
     Fulfilled [\<lparr>doc_id = ''a'', doc_data = Map.empty\<rparr>, \<lparr>doc_id = ''b'', doc_data = Map.empty\<rparr>]
   \<and> getWallpapersByCategory (paging_store
       [\<lparr>doc_id = ''a'', doc_data = (Map.empty :: unit object)\<rparr>, \<lparr>doc_id = ''b'', doc_data = Map.empty\<rparr>,
        \<lparr>doc_id = ''c'', doc_data = Map.empty\<rparr>, \<lparr>doc_id = ''d'', doc_data = Map.empty\<rparr>])
       ''c1'' 2 None =
     (map with_id [\<lparr>doc_id = ''a'', doc_data = Map.empty\<rparr>, \<lparr>doc_id = ''b'', doc_data = Map.empty\<rparr>],
      \<lparr>lastDoc = Some \<lparr>doc_id = ''b'', doc_data = Map.empty\<rparr>, hasMore = True\<rparr>)
   \<and> distinct
       [\<lparr>doc_id = ''a'', doc_data = (Map.empty :: unit object)\<rparr>, \<lparr>doc_id = ''b'', doc_data = Map.empty\<rparr>,
        \<lparr>doc_id = ''c'', doc_data = Map.empty\<rparr>, \<lparr>doc_id = ''d'', doc_data = Map.empty\<rparr>]
   \<and> (0::nat) < 2
   \<and> length
       [\<lparr>doc_id = ''a'', doc_data = (Map.empty :: unit object)\<rparr>, \<lparr>doc_id = ''b'', doc_data = Map.empty\<rparr>,
        \<lparr>doc_id = ''c'', doc_data = Map.empty\<rparr>, \<lparr>doc_id = ''d'', doc_data = Map.empty\<rparr>] = 2 * 2
   \<and> getWallpapersByCategory (paging_store
       [\<lparr>doc_id = ''a'', doc_data = (Map.empty :: unit object)\<rparr>, \<lparr>doc_id = ''b'', doc_data = Map.empty\<rparr>,
        \<lparr>doc_id = ''c'', doc_data = Map.empty\<rparr>, \<lparr>doc_id = ''d'', doc_data = Map.empty\<rparr>])
       ''c1'' 2 (Some \<lparr>lastDoc = Some \<lparr>doc_id = ''b'', doc_data = Map.empty\<rparr>, hasMore = True\<rparr>) =
     (map with_id [\<lparr>doc_id = ''c'', doc_data = Map.empty\<rparr>, \<lparr>doc_id = ''d'', doc_data = Map.empty\<rparr>],
      \<lparr>lastDoc = Some \<lparr>doc_id = ''d'', doc_data = Map.empty\<rparr>, hasMore = True\<rparr>)
   \<and> getWallpapersByCategory (paging_store
       [\<lparr>doc_id = ''a'', doc_data = (Map.empty :: unit object)\<rparr>, \<lparr>doc_id = ''b'', doc_data = Map.empty\<rparr>,
        \<lparr>doc_id = ''c'', doc_data = Map.empty\<rparr>, \<lparr>doc_id = ''d'', doc_data = Map.empty\<rparr>])
       ''c1'' 2 (Some \<lparr>lastDoc = Some \<lparr>doc_id = ''d'', doc_data = Map.empty\<rparr>, hasMore = True\<rparr>) =
     ([], \<lparr>lastDoc = None, hasMore = False\<rparr>)"
  using pagination_hasMore_iff_full_page
    [where fs = "paging_store
       [\<lparr>doc_id = ''a'', doc_data = (Map.empty :: unit object)\<rparr>, \<lparr>doc_id = ''b'', doc_data = Map.empty\<rparr>,
        \<lparr>doc_id = ''c'', doc_data = Map.empty\<rparr>, \<lparr>doc_id = ''d'', doc_data = Map.empty\<rparr>]"
       and cat = "''c1''" and lim = 2 and pag = None
       and docs = "[\<lparr>doc_id = ''a'', doc_data = Map.empty\<rparr>, \<lparr>doc_id = ''b'', doc_data = Map.empty\<rparr>]"
       and ds = "[\<lparr>doc_id = ''a'', doc_data = (Map.empty :: unit object)\<rparr>, \<lparr>doc_id = ''b'', doc_data = Map.empty\<rparr>,
        \<lparr>doc_id = ''c'', doc_data = Map.empty\<rparr>, \<lparr>doc_id = ''d'', doc_data = Map.empty\<rparr>]"
       and P = 2 and k = 2 and cat' = "''c1''"]
  by (simp add: paging_store_def after_cursor_def getWallpapersByCategory_def Let_def)

lemma find_append_last:
  "find P (xs @ [x]) = (case find P xs of Some y \<Rightarrow> Some y | None \<Rightarrow> if P x then Some x else None)"
  by (induction xs) auto

lemma add_docs_distinct:
  "distinct (Map_keys m) \<Longrightarrow>
   distinct (Map_keys (foldl (\<lambda>m d. Map_set (doc_id d) (with_id d) m) m ds))"
  by (induction ds arbitrary: m) (simp_all add: distinct_Map_set)

lemma add_docs_keys:
  "set (Map_keys (foldl (\<lambda>m d. Map_set (doc_id d) (with_id d) m) m ds)) =
   set (Map_keys m) \<union> doc_id ` set ds"
  by (induction ds arbitrary: m) (auto simp: Map_keys_set)

lemma add_docs_get:
  "Map_get i (foldl (\<lambda>m d. Map_set (doc_id d) (with_id d) m) m ds) =
     (case find (\<lambda>d. doc_id d = i) (rev ds) of
        Some d \<Rightarrow> Some (with_id d)
      | None \<Rightarrow> Map_get i m)"
proof (induction ds arbitrary: m)
  case Nil
  show ?case by simp
next
  case (Cons d ds)
  show ?case
    by (simp add: Cons.IH find_append_last Map_get_set split: option.splits)
qed

lemma Map_set_entries: "set (Map_set k v m) \<subseteq> insert (k, v) (set m)"
  by (induction m) (auto split: if_splits)

lemma Map_get_Nil: "Map_get i [] = None"
  by (simp add: Map_get_def)

lemma add_docs_entries:
  "(k, obj) \<in> set (foldl (\<lambda>m d. Map_set (doc_id d) (with_id d) m) m ds) \<Longrightarrow>
   (k, obj) \<in> set m \<or> (\<exists>d \<in> set ds. k = doc_id d \<and> obj = with_id d)"
proof (induction ds arbitrary: m)
  case Nil
  then show ?case by simp
next
  case (Cons d ds)
  from Cons.IH [of "Map_set (doc_id d) (with_id d) m"] Cons.prems
  have "(k, obj) \<in> set (Map_set (doc_id d) (with_id d) m)
        \<or> (\<exists>d' \<in> set ds. k = doc_id d' \<and> obj = with_id d')" by simp
  then show ?case using Map_set_entries [of "doc_id d" "with_id d" m] by auto
qed

lemma add_fulfilled_docs_of:
  "add_fulfilled snapshot m = foldl (\<lambda>m d. Map_set (doc_id d) (with_id d) m) m (docs_of snapshot)"
  by (cases snapshot) (simp_all add: add_fulfilled_def docs_of_def)

lemma merged_docs_of:
  "add_fulfilled tagSnapshot (add_fulfilled titleSnapshot []) =
   foldl (\<lambda>m d. Map_set (doc_id d) (with_id d) m) [] (docs_of titleSnapshot @ docs_of tagSnapshot)"
  by (simp add: add_fulfilled_docs_of)

lemma merged_distinct:
  "distinct (Map_keys (add_fulfilled tagSnapshot (add_fulfilled titleSnapshot [])))"
  unfolding merged_docs_of by (rule add_docs_distinct) (simp add: Map_keys_def)

lemma merged_keys:
  "set (Map_keys (add_fulfilled tagSnapshot (add_fulfilled titleSnapshot []))) =
   doc_id ` set (docs_of titleSnapshot @ docs_of tagSnapshot)"
  unfolding merged_docs_of add_docs_keys by (simp add: Map_keys_def)

lemma merged_get:
  "Map_get i (add_fulfilled tagSnapshot (add_fulfilled titleSnapshot [])) =
     (case find (\<lambda>d. doc_id d = i) (rev (docs_of tagSnapshot)) of
        Some d \<Rightarrow> Some (with_id d)
      | None \<Rightarrow> map_option with_id (find (\<lambda>d. doc_id d = i) (rev (docs_of titleSnapshot))))"
  by (simp add: add_fulfilled_docs_of add_docs_get Map_get_Nil split: option.splits)

lemma with_id_id:
  "doc_data d ''id'' = None \<or> doc_data d ''id'' = Some (Str (doc_id d)) \<Longrightarrow>
   with_id d ''id'' = Some (Str (doc_id d))"
  by (auto simp: with_id_def map_add_def)

lemma merged_ids:
  assumes "\<forall>d \<in> set (docs_of titleSnapshot @ docs_of tagSnapshot).
             doc_data d ''id'' = None \<or> doc_data d ''id'' = Some (Str (doc_id d))"
  shows "map (\<lambda>obj. obj ''id'') (Map_values (add_fulfilled tagSnapshot (add_fulfilled titleSnapshot []))) =
         map (\<lambda>k. Some (Str k)) (Map_keys (add_fulfilled tagSnapshot (add_fulfilled titleSnapshot [])))"
proof -
  let ?m = "add_fulfilled tagSnapshot (add_fulfilled titleSnapshot [])"
  have "snd kv ''id'' = Some (Str (fst kv))" if "kv \<in> set ?m" for kv
  proof -
    obtain k obj where kv: "kv = (k, obj)" by (cases kv)
    with that have "(k, obj) \<in> set (foldl (\<lambda>m d. Map_set (doc_id d) (with_id d) m) []
        (docs_of titleSnapshot @ docs_of tagSnapshot))"
      by (simp add: merged_docs_of)
    from add_docs_entries [OF this]
    obtain d where d: "d \<in> set (docs_of titleSnapshot @ docs_of tagSnapshot)"
      and "k = doc_id d" and "obj = with_id d" by auto
    moreover from assms d
    have "doc_data d ''id'' = None \<or> doc_data d ''id'' = Some (Str (doc_id d))" by blast
    ultimately show ?thesis using kv by (simp add: with_id_id)
  qed
  then show ?thesis by (simp add: Map_values_def Map_keys_def)
qed

lemma slice0_take: "0 \<le> n \<Longrightarrow> slice0 xs n = take (nat n) xs"
  by (simp add: slice0_def)

lemma slice0_is_take: "\<exists>j. slice0 xs n = take j xs"
  by (auto simp: slice0_def)

lemma slice0_map: "slice0 (map f xs) n = map f (slice0 xs n)"
  by (simp add: slice0_def take_map)

lemma map_of_take:
  "k \<in> set (map fst (take j m)) \<Longrightarrow> map_of (take j m) k = map_of m k"
proof (induction m arbitrary: j)
  case Nil
  then show ?case by simp
next
  case (Cons kv m)
  show ?case
  proof (cases j)
    case 0
    with Cons.prems show ?thesis by simp
  next
    case (Suc j')
    with Cons.prems Cons.IH [of j'] show ?thesis by (cases kv) auto
  qed
qed

lemma sliced_entries:
  "Map_values (slice0 m n) = slice0 (Map_values m) n"
  "distinct (Map_keys m) \<Longrightarrow> distinct (Map_keys (slice0 m n))"
  "\<forall>k \<in> set (Map_keys (slice0 m n)). Map_get k (slice0 m n) = Map_get k m"
proof -
  show "Map_values (slice0 m n) = slice0 (Map_values m) n"
    by (simp add: Map_values_def slice0_map)
  obtain j where j: "slice0 m n = take j m" using slice0_is_take by blast
  show "distinct (Map_keys (slice0 m n))" if "distinct (Map_keys m)"
  proof -
    have "Map_keys (slice0 m n) = take j (Map_keys m)" by (simp add: j Map_keys_def take_map)
    with that show ?thesis by simp
  qed
  show "\<forall>k \<in> set (Map_keys (slice0 m n)). Map_get k (slice0 m n) = Map_get k m"
    by (simp add: j Map_keys_def Map_get_def map_of_take)
qed

lemma merged_data_ids_distinct:
  assumes "\<forall>d \<in> set (docs_of titleSnapshot @ docs_of tagSnapshot).
             doc_data d ''id'' = None \<or> doc_data d ''id'' = Some (Str (doc_id d))"
  shows "distinct (map (\<lambda>obj. obj ''id'')
           (slice0 (Map_values (add_fulfilled tagSnapshot (add_fulfilled titleSnapshot []))) n))"
proof -
  let ?m = "add_fulfilled tagSnapshot (add_fulfilled titleSnapshot [])"
  have "distinct (map (\<lambda>k. Some (Str k)) (Map_keys ?m))"
    using merged_distinct [of tagSnapshot titleSnapshot] by (simp add: distinct_map inj_on_def)
  then have all: "distinct (map (\<lambda>obj. obj ''id'') (Map_values ?m))"
    using merged_ids [OF assms] by simp
  obtain j where "slice0 (Map_values ?m) n = take j (Map_values ?m)"
    using slice0_is_take by blast
  then have "map (\<lambda>obj. obj ''id'') (slice0 (Map_values ?m) n) =
             take j (map (\<lambda>obj. obj ''id'') (Map_values ?m))"
    by (simp add: take_map)
  with all show ?thesis by simp
qed

lemma search_miss:
  assumes "trim searchTerm \<noteq> []"
    and "\<forall>hit. fst (cacheUtils_get now
            (''search_'' @ toLowerCase js searchTerm @ ''_'' @ Number_toString limitCount) c) = Some hit
          \<longrightarrow> \<not> truthy hit"
    and "builds fs (ByTitle (toUpperCase js (trim searchTerm)) limitCount)"
    and "builds fs (ByTags [toLowerCase js (toUpperCase js (trim searchTerm))] limitCount)"
  shows "searchWallpapers js fs now now' searchTerm limitCount c =
     (Objects (slice0 (Map_values
         (add_fulfilled (getDocs fs (ByTags [toLowerCase js (toUpperCase js (trim searchTerm))] limitCount))
           (add_fulfilled (getDocs fs (ByTitle (toUpperCase js (trim searchTerm)) limitCount)) [])))
         limitCount),
      cacheUtils_set now' (''search_'' @ toLowerCase js searchTerm @ ''_'' @ Number_toString limitCount)
        (Objects (slice0 (Map_values
         (add_fulfilled (getDocs fs (ByTags [toLowerCase js (toUpperCase js (trim searchTerm))] limitCount))
           (add_fulfilled (getDocs fs (ByTitle (toUpperCase js (trim searchTerm)) limitCount)) [])))
         limitCount))
        120000
        (snd (cacheUtils_get now
            (''search_'' @ toLowerCase js searchTerm @ ''_'' @ Number_toString limitCount) c)),
      [CacheGet (''search_'' @ toLowerCase js searchTerm @ ''_'' @ Number_toString limitCount),
       GetDocs (ByTitle (toUpperCase js (trim searchTerm)) limitCount),
       GetDocs (ByTags [toLowerCase js (toUpperCase js (trim searchTerm))] limitCount),
       CacheSet (''search_'' @ toLowerCase js searchTerm @ ''_'' @ Number_toString limitCount)])"
proof -
  obtain cached c1 where g: "cacheUtils_get now
      (''search_'' @ toLowerCase js searchTerm @ ''_'' @ Number_toString limitCount) c = (cached, c1)"
    by (cases "cacheUtils_get now
      (''search_'' @ toLowerCase js searchTerm @ ''_'' @ Number_toString limitCount) c")
  with assms(2) have "cached = None \<or> (\<exists>hit. cached = Some hit \<and> \<not> truthy hit)"
    by (cases cached) auto
  then show ?thesis
    using assms(1,3,4) g by (auto simp: searchWallpapers_def Let_def)
qed

text \<open>
  C7. For every pair of case mappings of the runtime, every search term that is not blank and
  every limit, on a cache miss and with queries that the client library accepts:
  \<open>searchWallpapers\<close> issues the by-title and the by-tag query, however each of them
  settles, and returns the merged results cut by \<open>slice(0, limit)\<close>. The merged map has
  every identifier of either result set exactly once; under an identifier that the by-tag
  result has, it holds the by-tag document, otherwise the by-title document. For a limit
  that is not negative the result is the first \<open>limit\<close> merged values, so at most \<open>limit\<close>
  long. A rejected query contributes nothing, and the results of the other one are still
  returned. The returned list is the value column of entries with pairwise distinct
  identifiers, each holding the merged object of its identifier; and when every document
  either stores no \<open>id\<close> field or stores its own identifier there, the \<open>id\<close> fields of the
  returned objects are pairwise distinct as well.
\<close>

theorem search_merges_results_by_id:
  assumes "trim searchTerm \<noteq> []"
    and "\<forall>hit. fst (cacheUtils_get now
            (''search_'' @ toLowerCase js searchTerm @ ''_'' @ Number_toString limitCount) c) = Some hit
          \<longrightarrow> \<not> truthy hit"
    and "builds fs (ByTitle (toUpperCase js (trim searchTerm)) limitCount)"
    and "builds fs (ByTags [toLowerCase js (toUpperCase js (trim searchTerm))] limitCount)"
  shows
    "let cacheKey = ''search_'' @ toLowerCase js searchTerm @ ''_'' @ Number_toString limitCount;
         titleQuery = ByTitle (toUpperCase js (trim searchTerm)) limitCount;
         tagQuery = ByTags [toLowerCase js (toUpperCase js (trim searchTerm))] limitCount;
         titleSnapshot = getDocs fs titleQuery;
         tagSnapshot = getDocs fs tagQuery;
         merged = add_fulfilled tagSnapshot (add_fulfilled titleSnapshot []);
         data = slice0 (Map_values merged) limitCount;
         entries = slice0 merged limitCount
     in fst (searchWallpapers js fs now now' searchTerm limitCount c) = Objects data
        \<and> snd (snd (searchWallpapers js fs now now' searchTerm limitCount c)) =
            [CacheGet cacheKey, GetDocs titleQuery, GetDocs tagQuery, CacheSet cacheKey]
        \<and> distinct (Map_keys merged)
        \<and> set (Map_keys merged) = doc_id ` set (docs_of titleSnapshot @ docs_of tagSnapshot)
        \<and> (\<forall>i. Map_get i merged =
              (case find (\<lambda>d. doc_id d = i) (rev (docs_of tagSnapshot)) of
                 Some d \<Rightarrow> Some (with_id d)
               | None \<Rightarrow> map_option with_id (find (\<lambda>d. doc_id d = i) (rev (docs_of titleSnapshot)))))
        \<and> (0 \<le> limitCount \<longrightarrow>
              data = take (nat limitCount) (Map_values merged) \<and> int (length data) \<le> limitCount)
        \<and> ((\<forall>d \<in> set (docs_of titleSnapshot @ docs_of tagSnapshot).
               doc_data d ''id'' = None \<or> doc_data d ''id'' = Some (Str (doc_id d))) \<longrightarrow>
              distinct (map (\<lambda>obj. obj ''id'') data))
        \<and> (titleSnapshot = Rejected \<longrightarrow> merged = add_fulfilled tagSnapshot [])
        \<and> (tagSnapshot = Rejected \<longrightarrow> merged = add_fulfilled titleSnapshot [])
        \<and> data = Map_values entries
        \<and> distinct (Map_keys entries)
        \<and> (\<forall>k \<in> set (Map_keys entries). Map_get k entries = Map_get k merged)"
proof -
  let ?titleQuery = "ByTitle (toUpperCase js (trim searchTerm)) limitCount"
  let ?tagQuery = "ByTags [toLowerCase js (toUpperCase js (trim searchTerm))] limitCount"
  let ?T = "getDocs fs ?titleQuery"
  let ?G = "getDocs fs ?tagQuery"
  let ?merged = "add_fulfilled ?G (add_fulfilled ?T [])"
  let ?data = "slice0 (Map_values ?merged) limitCount"
  let ?entries = "slice0 ?merged limitCount"
  note run = search_miss [OF assms, of now']
  have r1: "fst (searchWallpapers js fs now now' searchTerm limitCount c) = Objects ?data"
    by (simp add: run)
  have r2: "snd (snd (searchWallpapers js fs now now' searchTerm limitCount c)) =
            [CacheGet (''search_'' @ toLowerCase js searchTerm @ ''_'' @ Number_toString limitCount),
             GetDocs ?titleQuery, GetDocs ?tagQuery,
             CacheSet (''search_'' @ toLowerCase js searchTerm @ ''_'' @ Number_toString limitCount)]"
    by (simp add: run)
  have r3: "distinct (Map_keys ?merged)" by (rule merged_distinct)
  have r4: "set (Map_keys ?merged) = doc_id ` set (docs_of ?T @ docs_of ?G)" by (rule merged_keys)
  have r5: "\<forall>i. Map_get i ?merged =
              (case find (\<lambda>d. doc_id d = i) (rev (docs_of ?G)) of
                 Some d \<Rightarrow> Some (with_id d)
               | None \<Rightarrow> map_option with_id (find (\<lambda>d. doc_id d = i) (rev (docs_of ?T))))"
    using merged_get by blast
  have r6: "0 \<le> limitCount \<longrightarrow>
              ?data = take (nat limitCount) (Map_values ?merged) \<and> int (length ?data) \<le> limitCount"
    by (auto simp: slice0_take)
  have r7: "(\<forall>d \<in> set (docs_of ?T @ docs_of ?G).
               doc_data d ''id'' = None \<or> doc_data d ''id'' = Some (Str (doc_id d))) \<longrightarrow>
              distinct (map (\<lambda>obj. obj ''id'') ?data)"
    using merged_data_ids_distinct by blast
  have r8: "?T = Rejected \<longrightarrow> ?merged = add_fulfilled ?G []"
    by (simp add: add_fulfilled_def)
  have r9: "?G = Rejected \<longrightarrow> ?merged = add_fulfilled ?T []"
    by (simp add: add_fulfilled_def)
  have r10: "?data = Map_values ?entries" by (simp add: sliced_entries(1))
  have r11: "distinct (Map_keys ?entries)" using r3 by (rule sliced_entries(2))
  have r12: "\<forall>k \<in> set (Map_keys ?entries). Map_get k ?entries = Map_get k ?merged"
    by (rule sliced_entries(3))
  from r1 r2 r3 r4 r5 r6 r7 r8 r9 r10 r11 r12 show ?thesis unfolding Let_def by blast
qed

text \<open>
  An instance: the term \<open>2024\<close> has no letters, so both case mappings leave it as it is.
  The by-title query finds \<open>w1\<close> and \<open>w2\<close>, the by-tag query \<open>w2\<close> and \<open>w3\<close>, and the
  limit is 2; in the second run the by-title query is rejected.
\<close>

theorem search_merges_results_by_id_witness:
  "trim ''2024'' \<noteq> []
   \<and> fst (searchWallpapers
        \<lparr>toLowerCase = (\<lambda>s. s), toUpperCase = (\<lambda>s. s)\<rparr>
        \<lparr>builds = (\<lambda>q. True),
         getDocs = (\<lambda>q. case q of
            ByTitle t n \<Rightarrow> Fulfilled [\<lparr>doc_id = ''w1'', doc_data = (Map.empty :: unit object)\<rparr>,
                                      \<lparr>doc_id = ''w2'', doc_data = Map.empty\<rparr>]
          | ByTags ts n \<Rightarrow> Fulfilled [\<lparr>doc_id = ''w2'', doc_data = [''id'' \<mapsto> Str ''w2'']\<rparr>,
                                      \<lparr>doc_id = ''w3'', doc_data = Map.empty\<rparr>]
          | ByCategory cat n start \<Rightarrow> Rejected)\<rparr>
        1000 1001 ''2024'' 2 []) =
      Objects [with_id \<lparr>doc_id = ''w1'', doc_data = Map.empty\<rparr>,
               with_id \<lparr>doc_id = ''w2'', doc_data = [''id'' \<mapsto> Str ''w2'']\<rparr>]
   \<and> (0::int) \<le> 2
   \<and> distinct (map (\<lambda>obj. obj ''id'')
        [with_id \<lparr>doc_id = ''w1'', doc_data = (Map.empty :: unit object)\<rparr>,
         with_id \<lparr>doc_id = ''w2'', doc_data = [''id'' \<mapsto> Str ''w2'']\<rparr>])
   \<and> fst (searchWallpapers
        \<lparr>toLowerCase = (\<lambda>s. s), toUpperCase = (\<lambda>s. s)\<rparr>
        \<lparr>builds = (\<lambda>q. True),
         getDocs = (\<lambda>q. case q of
            ByTitle t n \<Rightarrow> Rejected
          | ByTags ts n \<Rightarrow> Fulfilled [\<lparr>doc_id = ''w2'', doc_data = [''id'' \<mapsto> Str ''w2'']\<rparr>,
                                      \<lparr>doc_id = ''w3'', doc_data = (Map.empty :: unit object)\<rparr>]
          | ByCategory cat n start \<Rightarrow> Rejected)\<rparr>
        1000 1001 ''2024'' 2 []) =
      Objects [with_id \<lparr>doc_id = ''w2'', doc_data = [''id'' \<mapsto> Str ''w2'']\<rparr>,
               with_id \<lparr>doc_id = ''w3'', doc_data = Map.empty\<rparr>]"
proof -
  let ?js = "\<lparr>toLowerCase = (\<lambda>s. s), toUpperCase = (\<lambda>s. s)\<rparr>"
  let ?fs0 = "\<lparr>builds = (\<lambda>q. True),
         getDocs = (\<lambda>q. case q of
            ByTitle t n \<Rightarrow> Fulfilled [\<lparr>doc_id = ''w1'', doc_data = (Map.empty :: unit object)\<rparr>,
                                      \<lparr>doc_id = ''w2'', doc_data = Map.empty\<rparr>]
          | ByTags ts n \<Rightarrow> Fulfilled [\<lparr>doc_id = ''w2'', doc_data = [''id'' \<mapsto> Str ''w2'']\<rparr>,
                                      \<lparr>doc_id = ''w3'', doc_data = Map.empty\<rparr>]
          | ByCategory cat n start \<Rightarrow> Rejected)\<rparr>"
  let ?fs1 = "\<lparr>builds = (\<lambda>q. True),
         getDocs = (\<lambda>q. case q of
            ByTitle t n \<Rightarrow> Rejected
          | ByTags ts n \<Rightarrow> Fulfilled [\<lparr>doc_id = ''w2'', doc_data = [''id'' \<mapsto> Str ''w2'']\<rparr>,
                                      \<lparr>doc_id = ''w3'', doc_data = (Map.empty :: unit object)\<rparr>]
          | ByCategory cat n start \<Rightarrow> Rejected)\<rparr>"
  have h1: "trim ''2024'' \<noteq> []" by (simp add: trim_def isWhiteSpace_def)
  have h2: "\<forall>hit. fst (cacheUtils_get 1000
            (''search_'' @ toLowerCase ?js ''2024'' @ ''_'' @ Number_toString 2) []) = Some hit
          \<longrightarrow> \<not> truthy (hit :: unit payload)"
    by (simp add: cacheUtils_get_def Map_get_def)
  have b0: "builds ?fs0 q" and b1: "builds ?fs1 q" for q by simp_all
  note t0 = search_merges_results_by_id [OF h1 h2 b0 b0, of 1001, unfolded Let_def]
  note t1 = search_merges_results_by_id [OF h1 h2 b1 b1, of 1001, unfolded Let_def]
  have r0: "fst (searchWallpapers ?js ?fs0 1000 1001 ''2024'' 2 []) =
      Objects [with_id \<lparr>doc_id = ''w1'', doc_data = Map.empty\<rparr>,
               with_id \<lparr>doc_id = ''w2'', doc_data = [''id'' \<mapsto> Str ''w2'']\<rparr>]"
    using t0 [THEN conjunct1]
    by (simp add: add_fulfilled_def Map_values_def slice0_def)
  have d0: "distinct (map (\<lambda>obj. obj ''id'')
        [with_id \<lparr>doc_id = ''w1'', doc_data = (Map.empty :: unit object)\<rparr>,
         with_id \<lparr>doc_id = ''w2'', doc_data = [''id'' \<mapsto> Str ''w2'']\<rparr>])"
    using t0 [THEN conjunct2, THEN conjunct2, THEN conjunct2, THEN conjunct2, THEN conjunct2,
              THEN conjunct2, THEN conjunct1]
    by (simp add: add_fulfilled_def Map_values_def slice0_def docs_of_def)
  have r1: "fst (searchWallpapers ?js ?fs1 1000 1001 ''2024'' 2 []) =
      Objects [with_id \<lparr>doc_id = ''w2'', doc_data = [''id'' \<mapsto> Str ''w2'']\<rparr>,
               with_id \<lparr>doc_id = ''w3'', doc_data = Map.empty\<rparr>]"
    using t1 [THEN conjunct1]
    by (simp add: add_fulfilled_def Map_values_def slice0_def)
  from h1 r0 d0 r1 show ?thesis by simp
qed

end
